theory Spec2Isabelle
  imports Main
begin

section \<open>The query builder and transaction coordinator of \<open>services/postgresClient.ts\<close>\<close>

text \<open>
  The development embeds the class \<open>QueryBuilder\<close> and the method
  \<open>PostgresClient.transaction\<close>. SQL text is a \<open>string\<close>, built with the same
  literals, separators and line breaks as the template literals of the source. A bound
  value (\<open>any\<close> in the source) is a value of the type variable \<open>'v\<close>, a row is \<open>'row\<close>
  and an error raised by the driver is \<open>'e\<close>. The driver itself (\<open>pg\<close>) is not part of
  the repository: its answer to a statement is a parameter of the model.
\<close>

subsection \<open>Strings\<close>

text \<open>The line break inside a template literal.\<close>

definition nl :: string where
  "nl = [CHR 0x0A]"

text \<open>
  \<open>Array.prototype.join\<close> on an array of strings: the empty array gives the empty
  string, the separator stands between neighbours only.
\<close>

fun join :: "string \<Rightarrow> string list \<Rightarrow> string" where
  "join sep [] = []"
| "join sep [x] = x"
| "join sep (x # y # ys) = x @ sep @ join sep (y # ys)"

text \<open>
  A number inside a template literal is printed in decimal. The counters of the builder
  are non-negative integers (\<open>nat\<close>); \<open>limit\<close> and \<open>offset\<close> take any integer here
  (\<open>int\<close>; fractions, \<open>NaN\<close> and the exponent notation of very large numbers are outside
  the model).
\<close>

definition digit :: "nat \<Rightarrow> char" where
  "digit d = ''0123456789'' ! d"

function decimal :: "nat \<Rightarrow> string" where
  "decimal n = (if 10 \<le> n then decimal (n div 10) else []) @ [digit (n mod 10)]"
  by pat_completeness auto
termination
  by (relation "measure (\<lambda>n. n)") auto

declare decimal.simps [simp del]

definition number_text :: "int \<Rightarrow> string" where
  "number_text i = (if 0 \<le> i then decimal (nat i) else CHR ''-'' # decimal (nat (- i)))"

subsection \<open>Promises, thrown values and result envelopes\<close>

text \<open>
  An \<open>async\<close> method returns a promise. A promise is fulfilled with the value the body
  returns, rejected with the value the body throws, or stays pending for ever.
\<close>

datatype ('a, 'x) promise = Fulfilled 'a | Rejected 'x | Pending

text \<open>
  What a \<open>catch\<close> clause can receive: the error the driver rejected a statement with, or
  a \<open>TypeError\<close> of the language itself.
\<close>

datatype 'e thrown = DriverError 'e | TypeError string

text \<open>The object \<open>{ data, error }\<close>; \<open>None\<close> is \<open>null\<close>.\<close>

record ('d, 'x) envelope =
  data :: "'d option"
  error :: "'x option"

text \<open>
  The object \<open>{ count, error }\<close> of \<open>count()\<close>: \<open>count_value\<close> is its property
  \<open>count\<close>, \<open>count_error\<close> its property \<open>error\<close>.
\<close>

record ('n, 'x) count_envelope =
  count_value :: 'n
  count_error :: "'x option"

subsection \<open>The builder\<close>

datatype direction = ASC | DESC

fun direction_text :: "direction \<Rightarrow> string" where
  "direction_text ASC = ''ASC''"
| "direction_text DESC = ''DESC''"

text \<open>
  \<open>client.query(text, params)\<close> of the pool: the promise it returns is fulfilled with a
  result whose \<open>rows\<close> are given here, or rejected with the driver's error.
\<close>

type_synonym ('v, 'row, 'e) pool = "string \<Rightarrow> 'v list \<Rightarrow> 'e + 'row list"

text \<open>
  The fields of the class, one to one. \<open>setData\<close> and \<open>setError\<close> add the two
  properties \<open>data\<close> and \<open>error\<close> to the object; they are the field \<open>result\<close>, which is
  \<open>None\<close> as long as neither method has run.
\<close>

record ('v, 'row, 'e) QueryBuilder =
  table :: string
  columns :: "string list"
  whereConditions :: "string list"
  whereParams :: "'v list"
  orderByColumns :: "string list"
  orderDirection :: direction
  limitValue :: "int option"
  offsetValue :: "int option"
  client :: "('v, 'row, 'e) pool"
  paramCount :: nat
  result :: "('row list, 'e thrown) envelope option"

text \<open>The constructor, with the initial values of the field declarations.\<close>

definition new_QueryBuilder ::
    "string \<Rightarrow> ('v, 'row, 'e) pool \<Rightarrow> ('v, 'row, 'e) QueryBuilder" where
  "new_QueryBuilder t c =
     \<lparr> table = t, columns = [''*''], whereConditions = [], whereParams = [],
       orderByColumns = [], orderDirection = ASC, limitValue = None, offsetValue = None,
       client = c, paramCount = 1, result = None \<rparr>"

text \<open>\<open>PostgresClient.from\<close>.\<close>

definition from_table ::
    "('v, 'row, 'e) pool \<Rightarrow> string \<Rightarrow> ('v, 'row, 'e) QueryBuilder" where
  "from_table p t = new_QueryBuilder t p"

text \<open>\<open>select\<close> takes one column name or an array of them; the default is \<open>'*'\<close>.\<close>

datatype columns_arg = OneColumn string | ColumnArray "string list"

fun select :: "columns_arg \<Rightarrow> ('v, 'row, 'e) QueryBuilder \<Rightarrow> ('v, 'row, 'e) QueryBuilder" where
  "select (OneColumn c) b = b\<lparr>columns := [c]\<rparr>"
| "select (ColumnArray cs) b = b\<lparr>columns := cs\<rparr>"

definition select_default :: "('v, 'row, 'e) QueryBuilder \<Rightarrow> ('v, 'row, 'e) QueryBuilder" where
  "select_default b = select (OneColumn ''*'') b"

text \<open>
  The filter methods. Each pushes one condition text, pushes its value(s) and advances
  \<open>paramCount\<close>.
\<close>

definition eq ::
    "string \<Rightarrow> 'v \<Rightarrow> ('v, 'row, 'e) QueryBuilder \<Rightarrow> ('v, 'row, 'e) QueryBuilder" where
  "eq column v b =
     b\<lparr> whereConditions := whereConditions b @ [column @ '' = $'' @ decimal (paramCount b)],
        whereParams := whereParams b @ [v],
        paramCount := paramCount b + 1 \<rparr>"

definition neq ::
    "string \<Rightarrow> 'v \<Rightarrow> ('v, 'row, 'e) QueryBuilder \<Rightarrow> ('v, 'row, 'e) QueryBuilder" where
  "neq column v b =
     b\<lparr> whereConditions := whereConditions b @ [column @ '' != $'' @ decimal (paramCount b)],
        whereParams := whereParams b @ [v],
        paramCount := paramCount b + 1 \<rparr>"

definition gt ::
    "string \<Rightarrow> 'v \<Rightarrow> ('v, 'row, 'e) QueryBuilder \<Rightarrow> ('v, 'row, 'e) QueryBuilder" where
  "gt column v b =
     b\<lparr> whereConditions := whereConditions b @ [column @ '' > $'' @ decimal (paramCount b)],
        whereParams := whereParams b @ [v],
        paramCount := paramCount b + 1 \<rparr>"

definition lt ::
    "string \<Rightarrow> 'v \<Rightarrow> ('v, 'row, 'e) QueryBuilder \<Rightarrow> ('v, 'row, 'e) QueryBuilder" where
  "lt column v b =
     b\<lparr> whereConditions := whereConditions b @ [column @ '' < $'' @ decimal (paramCount b)],
        whereParams := whereParams b @ [v],
        paramCount := paramCount b + 1 \<rparr>"

definition gte ::
    "string \<Rightarrow> 'v \<Rightarrow> ('v, 'row, 'e) QueryBuilder \<Rightarrow> ('v, 'row, 'e) QueryBuilder" where
  "gte column v b =
     b\<lparr> whereConditions := whereConditions b @ [column @ '' >= $'' @ decimal (paramCount b)],
        whereParams := whereParams b @ [v],
        paramCount := paramCount b + 1 \<rparr>"

definition lte ::
    "string \<Rightarrow> 'v \<Rightarrow> ('v, 'row, 'e) QueryBuilder \<Rightarrow> ('v, 'row, 'e) QueryBuilder" where
  "lte column v b =
     b\<lparr> whereConditions := whereConditions b @ [column @ '' <= $'' @ decimal (paramCount b)],
        whereParams := whereParams b @ [v],
        paramCount := paramCount b + 1 \<rparr>"

text \<open>
  \<open>in\<close>: \<open>values.map((_, i) => `$${this.paramCount + i}`).join(', ')\<close>, one placeholder
  for each index \<open>i\<close> of \<open>values\<close>.
\<close>

definition in_filter ::
    "string \<Rightarrow> 'v list \<Rightarrow> ('v, 'row, 'e) QueryBuilder \<Rightarrow> ('v, 'row, 'e) QueryBuilder" where
  "in_filter column vs b =
     (let placeholders =
            join '', '' (map (\<lambda>i. ''$'' @ decimal (paramCount b + i)) [0..<length vs])
      in b\<lparr> whereConditions := whereConditions b @ [column @ '' IN ('' @ placeholders @ '')''],
            whereParams := whereParams b @ vs,
            paramCount := paramCount b + length vs \<rparr>)"

definition like ::
    "string \<Rightarrow> 'v \<Rightarrow> ('v, 'row, 'e) QueryBuilder \<Rightarrow> ('v, 'row, 'e) QueryBuilder" where
  "like column pattern b =
     b\<lparr> whereConditions := whereConditions b @ [column @ '' LIKE $'' @ decimal (paramCount b)],
        whereParams := whereParams b @ [pattern],
        paramCount := paramCount b + 1 \<rparr>"

definition ilike ::
    "string \<Rightarrow> 'v \<Rightarrow> ('v, 'row, 'e) QueryBuilder \<Rightarrow> ('v, 'row, 'e) QueryBuilder" where
  "ilike column pattern b =
     b\<lparr> whereConditions := whereConditions b @ [column @ '' ILIKE $'' @ decimal (paramCount b)],
        whereParams := whereParams b @ [pattern],
        paramCount := paramCount b + 1 \<rparr>"

definition orderBy ::
    "string \<Rightarrow> direction \<Rightarrow> ('v, 'row, 'e) QueryBuilder \<Rightarrow> ('v, 'row, 'e) QueryBuilder" where
  "orderBy column dir b = b\<lparr> orderByColumns := [column], orderDirection := dir \<rparr>"

definition limit :: "int \<Rightarrow> ('v, 'row, 'e) QueryBuilder \<Rightarrow> ('v, 'row, 'e) QueryBuilder" where
  "limit n b = b\<lparr> limitValue := Some n \<rparr>"

definition offset :: "int \<Rightarrow> ('v, 'row, 'e) QueryBuilder \<Rightarrow> ('v, 'row, 'e) QueryBuilder" where
  "offset n b = b\<lparr> offsetValue := Some n \<rparr>"

definition single :: "('v, 'row, 'e) QueryBuilder \<Rightarrow> ('v, 'row, 'e) QueryBuilder" where
  "single b = b\<lparr> limitValue := Some 1 \<rparr>"

definition setData ::
    "'row list \<Rightarrow> ('v, 'row, 'e) QueryBuilder \<Rightarrow> ('v, 'row, 'e) QueryBuilder" where
  "setData rows b = b\<lparr> result := Some \<lparr> data = Some rows, error = None \<rparr> \<rparr>"

definition setError ::
    "'e thrown \<Rightarrow> ('v, 'row, 'e) QueryBuilder \<Rightarrow> ('v, 'row, 'e) QueryBuilder" where
  "setError x b = b\<lparr> result := Some \<lparr> data = None, error = Some x \<rparr> \<rparr>"

subsection \<open>Terminal operations of the builder\<close>

text \<open>\<open>` WHERE ${this.whereConditions.join(' AND ')}`\<close>, added when there is a condition.\<close>

definition where_clause :: "('v, 'row, 'e) QueryBuilder \<Rightarrow> string" where
  "where_clause b =
     (if length (whereConditions b) > 0
      then '' WHERE '' @ join '' AND '' (whereConditions b) else [])"

definition count_query :: "('v, 'row, 'e) QueryBuilder \<Rightarrow> string" where
  "count_query b = ''SELECT COUNT(*) FROM '' @ table b @ where_clause b"

text \<open>
  \<open>count\<close>. The parameter \<open>parseCount\<close> is \<open>parseInt(row.count)\<close> on the first row
  (\<open>None\<close> is \<open>NaN\<close>); reading \<open>rows[0].count\<close> when there is no row throws a
  \<open>TypeError\<close> inside the \<open>try\<close>. The method assigns no field of the builder: the
  builder after the call is returned beside the promise.
\<close>

definition count ::
    "('row \<Rightarrow> int option) \<Rightarrow> ('v, 'row, 'e) QueryBuilder \<Rightarrow>
     ((int option, 'e thrown) count_envelope, 'e thrown) promise \<times> ('v, 'row, 'e) QueryBuilder" where
  "count parseCount b =
     (case client b (count_query b) (whereParams b) of
        Inr rows \<Rightarrow>
          (case rows of
             [] \<Rightarrow> (Fulfilled \<lparr> count_value = Some 0,
                      count_error = Some (TypeError ''Cannot read properties of undefined'') \<rparr>, b)
           | r # _ \<Rightarrow> (Fulfilled \<lparr> count_value = parseCount r, count_error = None \<rparr>, b))
      | Inl e \<Rightarrow> (Fulfilled \<lparr> count_value = Some 0, count_error = Some (DriverError e) \<rparr>, b))"

definition execute_query :: "('v, 'row, 'e) QueryBuilder \<Rightarrow> string" where
  "execute_query b =
     ''SELECT '' @ join '', '' (columns b) @ '' FROM '' @ table b
     @ where_clause b
     @ (if length (orderByColumns b) > 0
        then '' ORDER BY '' @ join '', '' (orderByColumns b) @ '' '' @ direction_text (orderDirection b)
        else [])
     @ (case limitValue b of None \<Rightarrow> [] | Some n \<Rightarrow> '' LIMIT '' @ number_text n)
     @ (case offsetValue b of None \<Rightarrow> [] | Some n \<Rightarrow> '' OFFSET '' @ number_text n)"

definition execute ::
    "('v, 'row, 'e) QueryBuilder \<Rightarrow> (('row list, 'e thrown) envelope, 'e thrown) promise" where
  "execute b =
     (case client b (execute_query b) (whereParams b) of
        Inr rows \<Rightarrow> Fulfilled \<lparr> data = Some rows, error = None \<rparr>
      | Inl e \<Rightarrow> Fulfilled \<lparr> data = None, error = Some (DriverError e) \<rparr>)"

text \<open>
  The record given to \<open>insert\<close> and \<open>update\<close> is an object: its own properties in
  insertion order, as \<open>Object.keys\<close> and \<open>Object.values\<close> list them.
\<close>

type_synonym 'v js_record = "(string \<times> 'v) list"

definition object_keys :: "'v js_record \<Rightarrow> string list" where
  "object_keys d = map fst d"

definition object_values :: "'v js_record \<Rightarrow> 'v list" where
  "object_values d = map snd d"

text \<open>\<open>xs.map((x, i) => f(x, i))\<close>: the callback sees each element with its index.\<close>

definition map_index :: "('a \<Rightarrow> nat \<Rightarrow> 'b) \<Rightarrow> 'a list \<Rightarrow> 'b list" where
  "map_index f xs = map (\<lambda>(i, x). f x i) (enumerate 0 xs)"

text \<open>The statement \<open>insert\<close> sends: its text and its parameter array.\<close>

definition insert_statement ::
    "('v, 'row, 'e) QueryBuilder \<Rightarrow> 'v js_record \<Rightarrow> string \<times> 'v list" where
  "insert_statement b d =
     (let cols = object_keys d;
          vals = object_values d;
          placeholders = join '', '' (map_index (\<lambda>_ i. ''$'' @ decimal (i + 1)) vals)
      in (nl @ ''        INSERT INTO '' @ table b @ '' ('' @ join '', '' cols @ '')'' @ nl
          @ ''        VALUES ('' @ placeholders @ '')'' @ nl
          @ ''        RETURNING *'' @ nl
          @ ''      '', vals))"

text \<open>
  What the three writing methods return in both branches: a new builder on the same
  table and pool, carrying the rows or the error.
\<close>

definition settle ::
    "('v, 'row, 'e) QueryBuilder \<Rightarrow> string \<times> 'v list \<Rightarrow>
     (('v, 'row, 'e) QueryBuilder, 'e thrown) promise" where
  "settle b st =
     (case client b (fst st) (snd st) of
        Inr rows \<Rightarrow> Fulfilled (setData rows (new_QueryBuilder (table b) (client b)))
      | Inl e \<Rightarrow> Fulfilled (setError (DriverError e) (new_QueryBuilder (table b) (client b))))"

definition insert_record ::
    "'v js_record \<Rightarrow> ('v, 'row, 'e) QueryBuilder \<Rightarrow> (('v, 'row, 'e) QueryBuilder, 'e thrown) promise" where
  "insert_record d b = settle b (insert_statement b d)"

text \<open>
  The statement \<open>update\<close> sends. The \<open>SET\<close> placeholders are numbered from the index of
  each column; the \<open>WHERE\<close> clause is the text the filter methods stored; the stored
  parameters are pushed behind the \<open>SET\<close> values.
\<close>

definition update_statement ::
    "('v, 'row, 'e) QueryBuilder \<Rightarrow> 'v js_record \<Rightarrow> string \<times> 'v list" where
  "update_statement b d =
     (let cols = object_keys d;
          vals = object_values d;
          setClause = join '', '' (map_index (\<lambda>col i. col @ '' = $'' @ decimal (i + 1)) cols);
          query = nl @ ''        UPDATE '' @ table b @ nl
                  @ ''        SET '' @ setClause @ nl
                  @ ''      ''
      in if length (whereConditions b) > 0
         then (query @ '' WHERE '' @ join '' AND '' (whereConditions b) @ '' RETURNING *'',
               vals @ whereParams b)
         else (query @ '' RETURNING *'', vals))"

definition update ::
    "'v js_record \<Rightarrow> ('v, 'row, 'e) QueryBuilder \<Rightarrow> (('v, 'row, 'e) QueryBuilder, 'e thrown) promise" where
  "update d b = settle b (update_statement b d)"

definition delete_statement :: "('v, 'row, 'e) QueryBuilder \<Rightarrow> string \<times> 'v list" where
  "delete_statement b =
     (let query = nl @ ''        DELETE FROM '' @ table b @ nl
                  @ ''      ''
      in ((if length (whereConditions b) > 0
           then query @ '' WHERE '' @ join '' AND '' (whereConditions b)
           else query) @ '' RETURNING *'',
          whereParams b))"

definition delete :: "('v, 'row, 'e) QueryBuilder \<Rightarrow> (('v, 'row, 'e) QueryBuilder, 'e thrown) promise" where
  "delete b = settle b (delete_statement b)"

text \<open>
  A method call \<open>x.execute()\<close>. The three writing methods are declared \<open>async\<close>, so what
  a caller holds after \<open>from(t).insert(d)\<close> is a promise, not a builder; a promise
  has no property \<open>execute\<close>, and calling it throws a \<open>TypeError\<close> at once.
\<close>

datatype ('v, 'row, 'e) js_object =
    BuilderObject "('v, 'row, 'e) QueryBuilder"
  | PromiseObject "(('v, 'row, 'e) QueryBuilder, 'e thrown) promise"

definition call_execute ::
    "('v, 'row, 'e) js_object \<Rightarrow>
     'e thrown + (('row list, 'e thrown) envelope, 'e thrown) promise" where
  "call_execute obj =
     (case obj of
        BuilderObject b \<Rightarrow> Inr (execute b)
      | PromiseObject p \<Rightarrow> Inl (TypeError ''execute is not a function''))"

text \<open>
  The chain of the services (\<open>addCategory\<close>, \<open>addProfile\<close> and others):
  \<open>postgres.from(t).insert(d).execute()\<close>.
\<close>

definition insert_execute_chain ::
    "('v, 'row, 'e) pool \<Rightarrow> string \<Rightarrow> 'v js_record \<Rightarrow>
     'e thrown + (('row list, 'e thrown) envelope, 'e thrown) promise" where
  "insert_execute_chain p t d = call_execute (PromiseObject (insert_record d (from_table p t)))"

subsection \<open>Sequences of filter calls\<close>

text \<open>One call of a filter method, with its arguments.\<close>

datatype 'v filter_call =
    Call_eq string 'v
  | Call_neq string 'v
  | Call_gt string 'v
  | Call_lt string 'v
  | Call_gte string 'v
  | Call_lte string 'v
  | Call_in string "'v list"
  | Call_like string 'v
  | Call_ilike string 'v

fun apply_filter ::
    "'v filter_call \<Rightarrow> ('v, 'row, 'e) QueryBuilder \<Rightarrow> ('v, 'row, 'e) QueryBuilder" where
  "apply_filter (Call_eq c v) b = eq c v b"
| "apply_filter (Call_neq c v) b = neq c v b"
| "apply_filter (Call_gt c v) b = gt c v b"
| "apply_filter (Call_lt c v) b = lt c v b"
| "apply_filter (Call_gte c v) b = gte c v b"
| "apply_filter (Call_lte c v) b = lte c v b"
| "apply_filter (Call_in c vs) b = in_filter c vs b"
| "apply_filter (Call_like c v) b = like c v b"
| "apply_filter (Call_ilike c v) b = ilike c v b"

text \<open>A chain \<open>b.f1(...).f2(...)...\<close>: the calls run from left to right.\<close>

fun apply_filters ::
    "'v filter_call list \<Rightarrow> ('v, 'row, 'e) QueryBuilder \<Rightarrow> ('v, 'row, 'e) QueryBuilder" where
  "apply_filters [] b = b"
| "apply_filters (c # cs) b = apply_filters cs (apply_filter c b)"

text \<open>
  The reading of the specification, to compare the builder with: the values a call
  contributes, the position of its first value in the parameter array (counted from 1,
  as the database counts placeholders), and the condition a call should produce when
  its values stand at positions \<open>k\<close>, \<open>k + 1\<close>, ...
\<close>

fun call_values :: "'v filter_call \<Rightarrow> 'v list" where
  "call_values (Call_eq c v) = [v]"
| "call_values (Call_neq c v) = [v]"
| "call_values (Call_gt c v) = [v]"
| "call_values (Call_lt c v) = [v]"
| "call_values (Call_gte c v) = [v]"
| "call_values (Call_lte c v) = [v]"
| "call_values (Call_in c vs) = vs"
| "call_values (Call_like c v) = [v]"
| "call_values (Call_ilike c v) = [v]"

definition accumulated_values :: "'v filter_call list \<Rightarrow> 'v list" where
  "accumulated_values cs = concat (map call_values cs)"

definition first_position :: "'v filter_call list \<Rightarrow> nat \<Rightarrow> nat" where
  "first_position cs i = 1 + length (accumulated_values (take i cs))"

definition placeholder :: "nat \<Rightarrow> string" where
  "placeholder k = ''$'' @ decimal k"

fun spec_condition :: "'v filter_call \<Rightarrow> nat \<Rightarrow> string" where
  "spec_condition (Call_eq c v) k = c @ '' = '' @ placeholder k"
| "spec_condition (Call_neq c v) k = c @ '' != '' @ placeholder k"
| "spec_condition (Call_gt c v) k = c @ '' > '' @ placeholder k"
| "spec_condition (Call_lt c v) k = c @ '' < '' @ placeholder k"
| "spec_condition (Call_gte c v) k = c @ '' >= '' @ placeholder k"
| "spec_condition (Call_lte c v) k = c @ '' <= '' @ placeholder k"
| "spec_condition (Call_in c vs) k =
     c @ '' IN ('' @ join '', '' (map placeholder [k ..< k + length vs]) @ '')''"
| "spec_condition (Call_like c v) k = c @ '' LIKE '' @ placeholder k"
| "spec_condition (Call_ilike c v) k = c @ '' ILIKE '' @ placeholder k"

definition spec_conditions :: "'v filter_call list \<Rightarrow> string list" where
  "spec_conditions cs = map (\<lambda>i. spec_condition (cs ! i) (first_position cs i)) [0 ..< length cs]"

subsection \<open>Reading placeholders back from a statement\<close>

text \<open>
  The database numbers the parameter array from 1 and binds the placeholder \<open>$k\<close> of the
  text to its \<open>k\<close>-th element. \<open>placeholders_of\<close> reads a statement from left to right
  and lists the numbers of its placeholders: a \<open>$\<close> followed by the longest run of
  decimal digits. (Quoted literals and identifiers with a \<open>$\<close> inside are not told
  apart; the statements of the builder have none when the table and column names have
  none.)
\<close>

definition is_digit :: "char \<Rightarrow> bool" where
  "is_digit c \<longleftrightarrow> c \<in> set ''0123456789''"

definition digit_value :: "char \<Rightarrow> nat" where
  "digit_value c = length (takeWhile (\<lambda>d. d \<noteq> c) ''0123456789'')"

definition number_of :: "string \<Rightarrow> nat" where
  "number_of ds = foldl (\<lambda>n c. 10 * n + digit_value c) 0 ds"

function placeholders_of :: "string \<Rightarrow> nat list" where
  "placeholders_of [] = []"
| "placeholders_of (c # s) =
     (if c = CHR ''$'' \<and> takeWhile is_digit s \<noteq> []
      then number_of (takeWhile is_digit s) # placeholders_of (dropWhile is_digit s)
      else placeholders_of s)"
  by pat_completeness auto
termination
  by (relation "measure length") (auto simp: length_dropWhile_le less_Suc_eq_le)

declare placeholders_of.simps(2) [simp del]

text \<open>A text in front of which a number ends: it is empty or starts with a non-digit.\<close>

definition ends_number :: "string \<Rightarrow> bool" where
  "ends_number r \<longleftrightarrow> (case r of [] \<Rightarrow> True | c # _ \<Rightarrow> \<not> is_digit c)"

fun call_column :: "'v filter_call \<Rightarrow> string" where
  "call_column (Call_eq c v) = c"
| "call_column (Call_neq c v) = c"
| "call_column (Call_gt c v) = c"
| "call_column (Call_lt c v) = c"
| "call_column (Call_gte c v) = c"
| "call_column (Call_lte c v) = c"
| "call_column (Call_in c vs) = c"
| "call_column (Call_like c v) = c"
| "call_column (Call_ilike c v) = c"

subsection \<open>The transaction coordinator\<close>

text \<open>
  \<open>transaction\<close> acts on the pool and on one connection of it. The state of both is a
  \<open>world\<close>: the number of connections the pool can still hand out, and the trace of
  what has happened so far. The pool and the connection belong to the driver, so their
  behaviour is a parameter: \<open>connect_error\<close> says whether \<open>pool.connect()\<close> is rejected,
  and a \<open>driver\<close> says, from the trace so far, whether a statement is rejected.
\<close>

datatype 'e action =
    Checkout
  | Statement string
  | Invoke
  | ConsoleError 'e
  | Release

record 'e world =
  available :: nat
  trace :: "'e action list"

type_synonym 'e driver = "'e action list \<Rightarrow> string \<Rightarrow> 'e option"

text \<open>
  The unit of work: it receives the connection, may act on the world, and returns a
  value (\<open>Inr\<close>) or throws (\<open>Inl\<close>).
\<close>

type_synonym ('e, 'a) callback = "'e world \<Rightarrow> ('e + 'a) \<times> 'e world"

text \<open>
  Modelled from the spec: \<open>pool.connect()\<close> of the driver, which the repository only
  calls. It suspends until a connection is available (here: for ever when none is),
  may be rejected, and otherwise takes one connection out of the pool.
\<close>

definition pool_connect :: "'e option \<Rightarrow> 'e world \<Rightarrow> (unit, 'e) promise \<times> 'e world" where
  "pool_connect connect_error w =
     (if available w = 0 then (Pending, w)
      else case connect_error of
             Some e \<Rightarrow> (Rejected e, w)
           | None \<Rightarrow> (Fulfilled (), w\<lparr> available := available w - 1, trace := trace w @ [Checkout] \<rparr>))"

text \<open>\<open>client.query(text)\<close> on the connection: \<open>Some e\<close> when the statement is rejected.\<close>

definition client_query :: "'e driver \<Rightarrow> string \<Rightarrow> 'e world \<Rightarrow> 'e option \<times> 'e world" where
  "client_query drv text w = (drv (trace w) text, w\<lparr> trace := trace w @ [Statement text] \<rparr>)"

text \<open>Modelled from the spec: \<open>client.release()\<close> gives the connection back to the pool.\<close>

definition client_release :: "'e world \<Rightarrow> 'e world" where
  "client_release w = w\<lparr> available := available w + 1, trace := trace w @ [Release] \<rparr>"

definition console_error :: "'e \<Rightarrow> 'e world \<Rightarrow> 'e world" where
  "console_error e w = w\<lparr> trace := trace w @ [ConsoleError e] \<rparr>"

text \<open>
  The \<open>try\<close> block: \<open>BEGIN\<close>, the callback, \<open>COMMIT\<close>. A rejected statement and a
  throwing callback leave the block with the thrown value (\<open>Inl\<close>).
\<close>

definition transaction_try ::
    "'e driver \<Rightarrow> ('e, 'a) callback \<Rightarrow> 'e world \<Rightarrow> ('e + ('a, 'e) envelope) \<times> 'e world" where
  "transaction_try drv callback w =
     (case client_query drv ''BEGIN'' w of
        (Some e, w1) \<Rightarrow> (Inl e, w1)
      | (None, w1) \<Rightarrow>
          (case callback (w1\<lparr> trace := trace w1 @ [Invoke] \<rparr>) of
             (Inl e, w2) \<Rightarrow> (Inl e, w2)
           | (Inr res, w2) \<Rightarrow>
               (case client_query drv ''COMMIT'' w2 of
                  (Some e, w3) \<Rightarrow> (Inl e, w3)
                | (None, w3) \<Rightarrow> (Inr \<lparr> data = Some res, error = None \<rparr>, w3))))"

text \<open>
  The \<open>catch\<close> block: \<open>ROLLBACK\<close> first; when it is rejected its error leaves the block
  and the two lines after it do not run.
\<close>

definition transaction_catch ::
    "'e driver \<Rightarrow> 'e \<Rightarrow> 'e world \<Rightarrow> (('a, 'e) envelope, 'e) promise \<times> 'e world" where
  "transaction_catch drv e w =
     (case client_query drv ''ROLLBACK'' w of
        (Some e', w1) \<Rightarrow> (Rejected e', w1)
      | (None, w1) \<Rightarrow> (Fulfilled \<lparr> data = None, error = Some e \<rparr>, console_error e w1))"

text \<open>
  \<open>transaction\<close>: \<open>pool.connect()\<close> stands before the \<open>try\<close>; the \<open>finally\<close> block
  releases the connection after either block, whatever its outcome.
\<close>

definition transaction ::
    "'e option \<Rightarrow> 'e driver \<Rightarrow> ('e, 'a) callback \<Rightarrow> 'e world \<Rightarrow>
     (('a, 'e) envelope, 'e) promise \<times> 'e world" where
  "transaction connect_error drv callback w =
     (case pool_connect connect_error w of
        (Pending, w0) \<Rightarrow> (Pending, w0)
      | (Rejected e, w0) \<Rightarrow> (Rejected e, w0)
      | (Fulfilled _, w0) \<Rightarrow>
          (let (outcome, w1) =
                 (case transaction_try drv callback w0 of
                    (Inr env, w') \<Rightarrow> (Fulfilled env, w')
                  | (Inl e, w') \<Rightarrow> transaction_catch drv e w')
           in (outcome, client_release w1)))"

text \<open>
  A callback that leaves the pool alone: it neither changes the number of available
  connections nor releases the connection it was given (it may issue any statements).
  Releasing is left to the coordinator; the callbacks of the services only call
  \<open>client.query\<close>.
\<close>

definition callback_keeps_pool :: "('e, 'a) callback \<Rightarrow> bool" where
  "callback_keeps_pool callback \<longleftrightarrow>
     (\<forall>w. available (snd (callback w)) = available w
        \<and> count_list (trace (snd (callback w))) Release = count_list (trace w) Release)"

section \<open>Properties of the builder\<close>

subsection \<open>Printing small numbers\<close>

lemma decimal_below_ten: "n < 10 \<Longrightarrow> decimal n = [digit n]"
  by (simp add: decimal.simps)

lemma decimal_small:
  "decimal 1 = ''1''" "decimal 2 = ''2''" "decimal 3 = ''3''" "decimal 4 = ''4''"
  "decimal (Suc 0) = ''1''" "decimal (Suc (Suc 0)) = ''2''" "decimal (Suc (Suc (Suc 0))) = ''3''"
  by (simp_all add: decimal_below_ten digit_def)

subsection \<open>What a filter call does to the builder\<close>

lemma map_shift_upt: "map (\<lambda>i. f (n + i)) [0..<m] = map f [n..<n + m]"
proof -
  have "map f [n..<n + m] = map f (map (\<lambda>i. i + n) [0..<m])"
    by (simp add: map_add_upt add.commute)
  then show ?thesis by (simp add: comp_def add.commute)
qed

lemma in_placeholders:
  "map (\<lambda>i. ''$'' @ decimal (n + i)) [0..<m] = map placeholder [n..<n + m]"
  using map_shift_upt [of placeholder n m] by (simp add: placeholder_def)

lemmas filter_defs =
  eq_def neq_def gt_def lt_def gte_def lte_def in_filter_def like_def ilike_def

lemma apply_filter_whereParams:
  "whereParams (apply_filter c b) = whereParams b @ call_values c"
  by (cases c) (simp_all add: filter_defs)

lemma apply_filter_paramCount:
  "paramCount (apply_filter c b) = paramCount b + length (call_values c)"
  by (cases c) (simp_all add: filter_defs)

lemma apply_filter_whereConditions:
  "whereConditions (apply_filter c b) = whereConditions b @ [spec_condition c (paramCount b)]"
proof (cases c)
  case (Call_in col vs)
  then show ?thesis
    using in_placeholders [of "paramCount b" "length vs"] by (simp add: in_filter_def)
qed (simp_all add: filter_defs placeholder_def)

lemma apply_filter_frame:
  "table (apply_filter c b) = table b"
  "columns (apply_filter c b) = columns b"
  "orderByColumns (apply_filter c b) = orderByColumns b"
  "orderDirection (apply_filter c b) = orderDirection b"
  "limitValue (apply_filter c b) = limitValue b"
  "offsetValue (apply_filter c b) = offsetValue b"
  "client (apply_filter c b) = client b"
  "result (apply_filter c b) = result b"
  by (cases c; simp add: filter_defs)+

lemma apply_filters_frame:
  "table (apply_filters cs b) = table b"
  "columns (apply_filters cs b) = columns b"
  "orderByColumns (apply_filters cs b) = orderByColumns b"
  "orderDirection (apply_filters cs b) = orderDirection b"
  "limitValue (apply_filters cs b) = limitValue b"
  "offsetValue (apply_filters cs b) = offsetValue b"
  "client (apply_filters cs b) = client b"
  "result (apply_filters cs b) = result b"
  by (induction cs arbitrary: b; simp add: apply_filter_frame)+

lemma apply_filters_whereParams:
  "whereParams (apply_filters cs b) = whereParams b @ accumulated_values cs"
  by (induction cs arbitrary: b) (simp_all add: accumulated_values_def apply_filter_whereParams)

lemma apply_filters_paramCount:
  "paramCount (apply_filters cs b) = paramCount b + length (accumulated_values cs)"
  by (induction cs arbitrary: b) (simp_all add: accumulated_values_def apply_filter_paramCount)

text \<open>
  The conditions a chain adds to a builder whose counter stands at \<open>n\<close>: the call at
  index \<open>i\<close> numbers its placeholders from \<open>n\<close> plus the number of values pushed by the
  calls before it.
\<close>

lemma conditions_shift:
  "map (\<lambda>i. spec_condition ((c # cs) ! i) (n + length (accumulated_values (take i (c # cs)))))
       [0 ..< length (c # cs)]
   = spec_condition c n #
     map (\<lambda>i. spec_condition (cs ! i)
                 (n + length (call_values c) + length (accumulated_values (take i cs))))
         [0 ..< length cs]"
proof -
  have "[0..<length (c # cs)] = 0 # map Suc [0..<length cs]"
    by (simp add: upt_conv_Cons map_Suc_upt del: upt_Suc)
  then show ?thesis
    by (simp add: accumulated_values_def comp_def add.assoc del: upt_Suc)
qed

lemma apply_filters_whereConditions:
  "whereConditions (apply_filters cs b)
   = whereConditions b
     @ map (\<lambda>i. spec_condition (cs ! i) (paramCount b + length (accumulated_values (take i cs))))
           [0 ..< length cs]"
proof (induction cs arbitrary: b)
  case Nil
  then show ?case by simp
next
  case (Cons c cs)
  show ?case
    unfolding conditions_shift
    by (simp add: Cons.IH apply_filter_whereConditions apply_filter_paramCount)
qed

lemma fresh_fields:
  "whereConditions (from_table p t) = []"
  "whereParams (from_table p t) = []"
  "paramCount (from_table p t) = 1"
  "table (from_table p t) = t"
  "columns (from_table p t) = [''*'']"
  "orderByColumns (from_table p t) = []"
  "limitValue (from_table p t) = None"
  "offsetValue (from_table p t) = None"
  "client (from_table p t) = p"
  by (simp_all add: from_table_def new_QueryBuilder_def)

lemma fresh_chain_whereConditions:
  "whereConditions (apply_filters cs (from_table p t)) = spec_conditions cs"
  by (simp add: apply_filters_whereConditions fresh_fields spec_conditions_def first_position_def)

lemma fresh_chain_whereParams:
  "whereParams (apply_filters cs (from_table p t)) = accumulated_values cs"
  by (simp add: apply_filters_whereParams fresh_fields)

text \<open>
  The value \<open>j\<close> of the call at index \<open>i\<close> stands in the parameter array at the
  position the call's placeholder \<open>j\<close> names.
\<close>

lemma position_binds:
  assumes "i < length cs" and "j < length (call_values (cs ! i))"
  shows "accumulated_values cs ! (first_position cs i + j - 1) = call_values (cs ! i) ! j"
proof -
  have "cs = take i cs @ (cs ! i) # drop (Suc i) cs"
    using assms(1) by (simp add: id_take_nth_drop)
  then have "accumulated_values cs =
      accumulated_values (take i cs) @ call_values (cs ! i) @ accumulated_values (drop (Suc i) cs)"
    unfolding accumulated_values_def
    by (metis concat.simps(2) concat_append list.simps(9) map_append)
  then show ?thesis
    using assms(2) by (simp add: first_position_def nth_append)
qed

subsection \<open>Placeholders of the composed text\<close>

text \<open>
  Printing a number and reading it back gives the number, so the placeholders that
  \<open>placeholders_of\<close> finds in a condition are the ones the builder printed there.
\<close>

lemma digit_value_digit: "d < 10 \<Longrightarrow> digit_value (digit d) = d"
proof -
  assume "d < 10"
  then have "d \<in> {0, 1, 2, 3, 4, 5, 6, 7, 8, 9}" by auto
  then show ?thesis
    by (auto simp: digit_value_def digit_def)
qed

lemma is_digit_digit: "d < 10 \<Longrightarrow> is_digit (digit d)"
proof -
  assume "d < 10"
  then have "d \<in> {0, 1, 2, 3, 4, 5, 6, 7, 8, 9}" by auto
  then show ?thesis
    by (auto simp: is_digit_def digit_def)
qed

lemma number_of_snoc: "number_of (ds @ [c]) = 10 * number_of ds + digit_value c"
  by (simp add: number_of_def)

lemma number_of_decimal: "number_of (decimal n) = n"
proof (induction n rule: decimal.induct)
  case (1 n)
  show ?case
  proof (cases "10 \<le> n")
    case True
    then have "number_of (decimal n) = 10 * number_of (decimal (n div 10)) + digit_value (digit (n mod 10))"
      by (subst decimal.simps) (simp add: number_of_snoc)
    then show ?thesis
      using "1.IH" [OF True] by (simp add: digit_value_digit)
  next
    case False
    then have "decimal n = [digit n]" by (simp add: decimal.simps)
    then show ?thesis
      using False by (simp add: number_of_def digit_value_digit)
  qed
qed

lemma decimal_digits: "\<forall>c \<in> set (decimal n). is_digit c"
proof (induction n rule: decimal.induct)
  case (1 n)
  show ?case
  proof (cases "10 \<le> n")
    case True
    then have "set (decimal n) = set (decimal (n div 10)) \<union> {digit (n mod 10)}"
      by (subst decimal.simps) simp
    then show ?thesis
      using "1.IH" [OF True] by (simp add: is_digit_digit)
  next
    case False
    then have "decimal n = [digit n]" by (simp add: decimal.simps)
    then show ?thesis
      using False by (simp add: is_digit_digit)
  qed
qed

lemma decimal_not_empty: "decimal n \<noteq> []"
  by (subst decimal.simps) simp

lemma take_drop_digits:
  assumes "ends_number r"
  shows "takeWhile is_digit (decimal k @ r) = decimal k"
    and "dropWhile is_digit (decimal k @ r) = r"
proof -
  have r: "takeWhile is_digit r = []" "dropWhile is_digit r = r"
    using assms by (cases r; simp add: ends_number_def)+
  show "takeWhile is_digit (decimal k @ r) = decimal k"
    using decimal_digits [of k] r by (simp add: takeWhile_append2)
  show "dropWhile is_digit (decimal k @ r) = r"
    using decimal_digits [of k] r by (simp add: dropWhile_append2)
qed

lemma placeholders_of_placeholder:
  assumes "ends_number r"
  shows "placeholders_of (placeholder k @ r) = k # placeholders_of r"
  using take_drop_digits [OF assms, of k]
  by (simp add: placeholder_def placeholders_of.simps(2) decimal_not_empty number_of_decimal)

lemma placeholders_of_skip:
  "CHR ''$'' \<notin> set s \<Longrightarrow> placeholders_of (s @ r) = placeholders_of r"
  by (induction s) (auto simp: placeholders_of.simps(2))

lemma placeholders_of_list:
  assumes "ends_number r"
  shows "placeholders_of (join '', '' (map placeholder ks) @ r) = ks @ placeholders_of r"
proof (induction ks)
  case Nil
  then show ?case by simp
next
  case (Cons k ks)
  show ?case
  proof (cases ks)
    case Nil
    then show ?thesis by (simp add: placeholders_of_placeholder assms)
  next
    case (Cons k' ks')
    have e: "ends_number ('', '' @ join '', '' (map placeholder ks) @ r)"
      by (simp add: ends_number_def is_digit_def)
    have "placeholders_of (join '', '' (map placeholder (k # ks)) @ r)
        = placeholders_of (placeholder k @ ('', '' @ join '', '' (map placeholder ks) @ r))"
      using Cons by simp
    also have "\<dots> = k # placeholders_of ('', '' @ join '', '' (map placeholder ks) @ r)"
      by (rule placeholders_of_placeholder [OF e])
    also have "placeholders_of ('', '' @ join '', '' (map placeholder ks) @ r)
        = placeholders_of (join '', '' (map placeholder ks) @ r)"
      by (rule placeholders_of_skip) simp
    finally show ?thesis using Cons.IH by simp
  qed
qed

lemma placeholders_of_condition:
  assumes "CHR ''$'' \<notin> set (call_column c)" and "ends_number r"
  shows "placeholders_of (spec_condition c k @ r)
       = [k ..< k + length (call_values c)] @ placeholders_of r"
proof -
  have one: "placeholders_of ((col @ op) @ placeholder k @ r) = [k] @ placeholders_of r"
    if "CHR ''$'' \<notin> set col" "CHR ''$'' \<notin> set op" for col op
    using that by (subst placeholders_of_skip) (simp_all add: placeholders_of_placeholder assms(2))
  show ?thesis
  proof (cases c)
    case (Call_in col vs)
    have e: "ends_number ('')'' @ r)" by (simp add: ends_number_def is_digit_def)
    have "placeholders_of (spec_condition c k @ r)
        = placeholders_of ((col @ '' IN ('') @ (join '', '' (map placeholder [k ..< k + length vs]) @ ('')'' @ r)))"
      using Call_in by simp
    also have "\<dots> = placeholders_of (join '', '' (map placeholder [k ..< k + length vs]) @ ('')'' @ r))"
      using assms(1) Call_in by (subst placeholders_of_skip) simp_all
    also have "\<dots> = [k ..< k + length vs] @ placeholders_of ('')'' @ r)"
      by (rule placeholders_of_list [OF e])
    also have "placeholders_of ('')'' @ r) = placeholders_of r"
      by (rule placeholders_of_skip) simp
    finally show ?thesis using Call_in by simp
  qed (use assms(1) one [of _ "'' = ''"] one [of _ "'' != ''"] one [of _ "'' > ''"]
         one [of _ "'' < ''"] one [of _ "'' >= ''"] one [of _ "'' <= ''"]
         one [of _ "'' LIKE ''"] one [of _ "'' ILIKE ''"] in simp_all)
qed


lemma join_Cons_nonempty: "xs \<noteq> [] \<Longrightarrow> join sep (x # xs) = x @ sep @ join sep xs"
  by (cases xs) simp_all

lemma placeholders_of_conditions:
  assumes "\<forall>c \<in> set cs. CHR ''$'' \<notin> set (call_column c)" and "ends_number r"
  shows "placeholders_of
           (join '' AND ''
              (map (\<lambda>i. spec_condition (cs ! i) (n + length (accumulated_values (take i cs))))
                   [0 ..< length cs]) @ r)
         = [n ..< n + length (accumulated_values cs)] @ placeholders_of r"
  using assms(1)
proof (induction cs arbitrary: n)
  case Nil
  then show ?case by (simp add: accumulated_values_def)
next
  case (Cons c cs)
  let ?rest = "map (\<lambda>i. spec_condition (cs ! i)
                  (n + length (call_values c) + length (accumulated_values (take i cs))))
                [0 ..< length cs]"
  have col: "CHR ''$'' \<notin> set (call_column c)"
    and cols: "\<forall>c \<in> set cs. CHR ''$'' \<notin> set (call_column c)"
    using Cons.prems by simp_all
  have IH: "placeholders_of (join '' AND '' ?rest @ r)
          = [n + length (call_values c) ..< n + length (call_values c) + length (accumulated_values cs)]
            @ placeholders_of r"
    by (rule Cons.IH [OF cols])
  have split: "[n ..< n + length (accumulated_values (c # cs))]
             = [n ..< n + length (call_values c)]
               @ [n + length (call_values c) ..< n + length (call_values c) + length (accumulated_values cs)]"
  proof -
    have "[n ..< n + length (call_values c) + length (accumulated_values cs)]
        = [n ..< n + length (call_values c)]
          @ [n + length (call_values c) ..< n + length (call_values c) + length (accumulated_values cs)]"
      by (rule upt_add_eq_append) simp
    then show ?thesis
      by (simp add: accumulated_values_def add.assoc)
  qed
  show ?case
  proof (cases "cs = []")
    case True
    then show ?thesis
      unfolding conditions_shift
      using placeholders_of_condition [OF col assms(2), of n]
      by (simp add: accumulated_values_def)
  next
    case False
    then have ne: "?rest \<noteq> []" by simp
    have e: "ends_number ('' AND '' @ join '' AND '' ?rest @ r)"
      by (simp add: ends_number_def is_digit_def)
    have "placeholders_of (join '' AND '' (spec_condition c n # ?rest) @ r)
        = placeholders_of (spec_condition c n @ ('' AND '' @ join '' AND '' ?rest @ r))"
      by (simp add: join_Cons_nonempty [OF ne])
    also have "\<dots> = [n ..< n + length (call_values c)]
                     @ placeholders_of ('' AND '' @ join '' AND '' ?rest @ r)"
      by (rule placeholders_of_condition [OF col e])
    also have "placeholders_of ('' AND '' @ join '' AND '' ?rest @ r)
             = placeholders_of (join '' AND '' ?rest @ r)"
      by (rule placeholders_of_skip) simp
    finally show ?thesis
      unfolding conditions_shift by (simp only: IH split append_assoc)
  qed
qed

lemma placeholders_of_execute_query:
  assumes "CHR ''$'' \<notin> set t" and "\<forall>c \<in> set cs. CHR ''$'' \<notin> set (call_column c)"
  shows "placeholders_of (execute_query (apply_filters cs (from_table p t)))
       = [1 ..< Suc (length (accumulated_values cs))]"
proof -
  have q: "execute_query (apply_filters cs (from_table p t))
         = (''SELECT * FROM '' @ t)
           @ (if cs = [] then [] else '' WHERE '' @ join '' AND '' (spec_conditions cs))"
    unfolding execute_query_def where_clause_def fresh_chain_whereConditions
    by (simp add: apply_filters_frame fresh_fields spec_conditions_def)
  have s: "CHR ''$'' \<notin> set (''SELECT * FROM '' @ t)"
    using assms(1) by simp
  show ?thesis
  proof (cases "cs = []")
    case True
    then show ?thesis
      unfolding q using placeholders_of_skip [OF s, of "[]"] by (simp add: accumulated_values_def)
  next
    case False
    have "placeholders_of (execute_query (apply_filters cs (from_table p t)))
        = placeholders_of ('' WHERE '' @ (join '' AND '' (spec_conditions cs) @ []))"
      unfolding q using False placeholders_of_skip [OF s] by simp
    also have "\<dots> = placeholders_of (join '' AND '' (spec_conditions cs) @ [])"
      by (rule placeholders_of_skip) simp
    also have "\<dots> = [1 ..< 1 + length (accumulated_values cs)] @ placeholders_of []"
      unfolding spec_conditions_def first_position_def
      by (rule placeholders_of_conditions [OF assms(2)]) (simp add: ends_number_def)
    finally show ?thesis by simp
  qed
qed

subsection \<open>Parameter ordering of \<open>execute\<close>\<close>

text \<open>
  Claim C5. For every chain of filter calls on a fresh builder followed by \<open>execute()\<close>:
  the parameter array handed to the driver is the list of the filter values in call
  order (all values of an \<open>in\<close> call in element order); the statement is
  \<open>SELECT * FROM t\<close> followed, when there is a call, by the conditions joined with
  \<open>AND\<close>, where the condition of each call carries the placeholders \<open>$k\<close>, \<open>$(k+1)\<close>,
  ... for exactly the positions \<open>k\<close>, \<open>k + 1\<close>, ... at which its values stand in that
  array. Read back from the statement, the placeholders are \<open>$1\<close>, \<open>$2\<close>, ... up to
  the length of the array, in this order (for table and column names without a \<open>$\<close>).
  So placeholder \<open>$k\<close> binds to the \<open>k\<close>-th accumulated value, for chains of any
  length, the empty one included.
\<close>

theorem execute_binds_placeholders_in_call_order:
  "let b = apply_filters cs (from_table p t) in
     whereParams b = accumulated_values cs
   \<and> whereConditions b = spec_conditions cs
   \<and> execute_query b = ''SELECT * FROM '' @ t
        @ (if cs = [] then [] else '' WHERE '' @ join '' AND '' (spec_conditions cs))
   \<and> execute b = (case p (execute_query b) (accumulated_values cs) of
         Inr rows \<Rightarrow> Fulfilled \<lparr> data = Some rows, error = None \<rparr>
       | Inl e \<Rightarrow> Fulfilled \<lparr> data = None, error = Some (DriverError e) \<rparr>)
   \<and> (\<forall>i < length cs. \<forall>j < length (call_values (cs ! i)).
          accumulated_values cs ! (first_position cs i + j - 1) = call_values (cs ! i) ! j)
   \<and> (CHR ''$'' \<notin> set t \<and> (\<forall>c \<in> set cs. CHR ''$'' \<notin> set (call_column c))
        \<longrightarrow> placeholders_of (execute_query b) = [1 ..< Suc (length (accumulated_values cs))])"
proof -
  let ?b = "apply_filters cs (from_table p t)"
  have P: "whereParams ?b = accumulated_values cs"
    by (rule fresh_chain_whereParams)
  have C: "whereConditions ?b = spec_conditions cs"
    by (rule fresh_chain_whereConditions)
  have Q: "execute_query ?b = ''SELECT * FROM '' @ t
        @ (if cs = [] then [] else '' WHERE '' @ join '' AND '' (spec_conditions cs))"
    unfolding execute_query_def where_clause_def C
    by (simp add: apply_filters_frame fresh_fields spec_conditions_def)
  have E: "execute ?b = (case p (execute_query ?b) (accumulated_values cs) of
         Inr rows \<Rightarrow> Fulfilled \<lparr> data = Some rows, error = None \<rparr>
       | Inl e \<Rightarrow> Fulfilled \<lparr> data = None, error = Some (DriverError e) \<rparr>)"
    unfolding execute_def P by (simp add: apply_filters_frame fresh_fields)
  have S: "CHR ''$'' \<notin> set t \<and> (\<forall>c \<in> set cs. CHR ''$'' \<notin> set (call_column c))
        \<longrightarrow> placeholders_of (execute_query ?b) = [1 ..< Suc (length (accumulated_values cs))]"
    using placeholders_of_execute_query by blast
  show ?thesis
    unfolding Let_def using P C Q E S position_binds by blast
qed

theorem execute_binds_placeholders_in_call_order_witness:
  "(1::nat) < length [Call_eq ''a'' (10::int), Call_in ''b'' [20, 30]]
   \<and> (1::nat) < length (call_values ([Call_eq ''a'' (10::int), Call_in ''b'' [20, 30]] ! 1))
   \<and> first_position [Call_eq ''a'' (10::int), Call_in ''b'' [20, 30]] 1 + 1 = 3
   \<and> accumulated_values [Call_eq ''a'' (10::int), Call_in ''b'' [20, 30]] ! (3 - 1) = 30
   \<and> CHR ''$'' \<notin> set ''t''
   \<and> CHR ''$'' \<notin> set (call_column (Call_eq ''a'' (10::int)))
   \<and> CHR ''$'' \<notin> set (call_column (Call_in ''b'' [20::int, 30]))
   \<and> execute_query (apply_filters [Call_eq ''a'' (10::int), Call_in ''b'' [20, 30]]
         (from_table ((\<lambda>_ _. Inr []) :: (int, unit, unit) pool) ''t''))
      = ''SELECT * FROM t WHERE a = $1 AND b IN ($2, $3)''
   \<and> placeholders_of (execute_query (apply_filters [Call_eq ''a'' (10::int), Call_in ''b'' [20, 30]]
         (from_table ((\<lambda>_ _. Inr []) :: (int, unit, unit) pool) ''t''))) = [1, 2, 3]"
proof -
  let ?cs = "[Call_eq ''a'' (10::int), Call_in ''b'' [20, 30]]"
  let ?p = "(\<lambda>_ _. Inr []) :: (int, unit, unit) pool"
  have names: "CHR ''$'' \<notin> set ''t''" "\<forall>c \<in> set ?cs. CHR ''$'' \<notin> set (call_column c)"
    by simp_all
  have vals: "accumulated_values ?cs = [10, 20, 30]" "first_position ?cs 1 = 2"
    "spec_conditions ?cs = [''a = $1'', ''b IN ($2, $3)'']"
    by (simp_all add: spec_conditions_def first_position_def accumulated_values_def
        placeholder_def decimal_small)
  have upt: "[1 ..< Suc (length [10::int, 20, 30])] = [1, 2, 3]"
    by (simp add: upt_rec)
  note inst = execute_binds_placeholders_in_call_order
                [where cs = ?cs and p = ?p and t = "''t''", unfolded Let_def]
  have q: "execute_query (apply_filters ?cs (from_table ?p ''t''))
          = ''SELECT * FROM t WHERE a = $1 AND b IN ($2, $3)''"
    using inst [THEN conjunct2, THEN conjunct2, THEN conjunct1] by (simp add: vals)
  have "placeholders_of (execute_query (apply_filters ?cs (from_table ?p ''t'')))
          = [1 ..< Suc (length (accumulated_values ?cs))]"
    by (rule mp [OF inst [THEN conjunct2, THEN conjunct2, THEN conjunct2, THEN conjunct2,
                          THEN conjunct2]])
       (use names in simp)
  then have s: "placeholders_of (execute_query (apply_filters ?cs (from_table ?p ''t''))) = [1, 2, 3]"
    unfolding vals upt .
  show ?thesis
    using names vals q s by simp
qed

subsection \<open>Values stay out of the SQL text\<close>

text \<open>
  Two calls of the same method on the same column have the same shape; for \<open>in\<close> the
  shape keeps the number of values, which is the number of placeholders.
\<close>

lemma shape_condition:
  assumes "map_filter_call (\<lambda>_. ()) c = map_filter_call (\<lambda>_. ()) c'"
  shows "spec_condition c k = spec_condition c' k"
    and "length (call_values c) = length (call_values c')"
  using assms by (cases c; cases c'; simp; metis length_map)+

lemma same_shape_conditions:
  assumes "map (map_filter_call (\<lambda>_. ())) cs = map (map_filter_call (\<lambda>_. ())) cs'"
    and "whereConditions b = whereConditions b'"
    and "paramCount b = paramCount b'"
  shows "whereConditions (apply_filters cs b) = whereConditions (apply_filters cs' b')"
  using assms
proof (induction cs arbitrary: cs' b b')
  case Nil
  then show ?case by simp
next
  case (Cons c cs)
  then obtain c' cs'' where cs': "cs' = c' # cs''"
    by (cases cs') auto
  with Cons.prems have s: "map_filter_call (\<lambda>_. ()) c = map_filter_call (\<lambda>_. ()) c'"
    and r: "map (map_filter_call (\<lambda>_. ())) cs = map (map_filter_call (\<lambda>_. ())) cs''"
    by simp_all
  have "whereConditions (apply_filter c b) = whereConditions (apply_filter c' b')"
    and "paramCount (apply_filter c b) = paramCount (apply_filter c' b')"
    using shape_condition [OF s] Cons.prems(2,3)
    by (simp_all add: apply_filter_whereConditions apply_filter_paramCount)
  then show ?case
    using Cons.IH [OF r] cs' by simp
qed

text \<open>
  Claim C8. Two chains of filter calls (\<open>eq\<close>, \<open>neq\<close>, \<open>gt\<close>, \<open>lt\<close>, \<open>gte\<close>, \<open>lte\<close>,
  \<open>in\<close>, \<open>like\<close>, \<open>ilike\<close>) that differ in nothing but the supplied values, applied to
  the same builder, store the same condition texts, so that every statement text the
  builder composes (\<open>execute\<close>, \<open>count\<close>, \<open>delete\<close>, \<open>update\<close>) is the same string for
  both; the values are found in the parameter array only, appended in call order.
\<close>

theorem filter_values_never_reach_sql_text:
  assumes "map (map_filter_call (\<lambda>_. ())) cs = map (map_filter_call (\<lambda>_. ())) cs'"
  shows "whereConditions (apply_filters cs b) = whereConditions (apply_filters cs' b)
       \<and> execute_query (apply_filters cs b) = execute_query (apply_filters cs' b)
       \<and> count_query (apply_filters cs b) = count_query (apply_filters cs' b)
       \<and> fst (delete_statement (apply_filters cs b)) = fst (delete_statement (apply_filters cs' b))
       \<and> fst (update_statement (apply_filters cs b) d) = fst (update_statement (apply_filters cs' b) d)
       \<and> whereParams (apply_filters cs b) = whereParams b @ accumulated_values cs
       \<and> whereParams (apply_filters cs' b) = whereParams b @ accumulated_values cs'"
proof -
  have w: "whereConditions (apply_filters cs b) = whereConditions (apply_filters cs' b)"
    by (rule same_shape_conditions [OF assms refl refl])
  show ?thesis
    by (simp add: w execute_query_def count_query_def where_clause_def delete_statement_def
        update_statement_def apply_filters_frame apply_filters_whereParams Let_def)
qed

theorem filter_values_never_reach_sql_text_witness:
  "map (map_filter_call (\<lambda>_. ())) [Call_eq ''name'' ''x'', Call_in ''id'' [''1'', ''2'']]
   = map (map_filter_call (\<lambda>_. ())) [Call_eq ''name'' ''y; DROP TABLE t'', Call_in ''id'' [''8'', ''9'']]
   \<and> execute_query (apply_filters [Call_eq ''name'' ''x'', Call_in ''id'' [''1'', ''2'']]
       (from_table ((\<lambda>_ _. Inr []) :: (string, unit, unit) pool) ''t''))
   = execute_query (apply_filters [Call_eq ''name'' ''y; DROP TABLE t'', Call_in ''id'' [''8'', ''9'']]
       (from_table ((\<lambda>_ _. Inr []) :: (string, unit, unit) pool) ''t''))
   \<and> whereParams (apply_filters [Call_eq ''name'' ''y; DROP TABLE t'', Call_in ''id'' [''8'', ''9'']]
       (from_table ((\<lambda>_ _. Inr []) :: (string, unit, unit) pool) ''t''))
     = [''y; DROP TABLE t'', ''8'', ''9'']"
  using filter_values_never_reach_sql_text
          [of "[Call_eq ''name'' ''x'', Call_in ''id'' [''1'', ''2'']]"
              "[Call_eq ''name'' ''y; DROP TABLE t'', Call_in ''id'' [''8'', ''9'']]"
              "from_table ((\<lambda>_ _. Inr []) :: (string, unit, unit) pool) ''t''" "[]"]
  by (simp add: fresh_fields accumulated_values_def)

subsection \<open>\<open>count\<close>\<close>

text \<open>
  Claim C9. \<open>count()\<close> sends \<open>SELECT COUNT(*) FROM\<close> the table, followed by the \<open>WHERE\<close>
  clause of the accumulated conditions when there is one, with the accumulated
  parameters. Neither the statement nor the answer depends on the projection, the
  ordering, the limit or the offset. The builder after the call is the builder before
  it, field by field, so a terminal call that follows sees the same state
  (\<open>execute\<close> is shown).
\<close>

theorem count_uses_filters_only_and_keeps_builder:
  "snd (count parseCount b) = b
   \<and> count_query b = ''SELECT COUNT(*) FROM '' @ table b
       @ (if whereConditions b = [] then [] else '' WHERE '' @ join '' AND '' (whereConditions b))
   \<and> fst (count parseCount b)
     = (case client b (count_query b) (whereParams b) of
          Inr [] \<Rightarrow> Fulfilled \<lparr> count_value = Some 0,
                      count_error = Some (TypeError ''Cannot read properties of undefined'') \<rparr>
        | Inr (r # _) \<Rightarrow> Fulfilled \<lparr> count_value = parseCount r, count_error = None \<rparr>
        | Inl e \<Rightarrow> Fulfilled \<lparr> count_value = Some 0, count_error = Some (DriverError e) \<rparr>)
   \<and> count_query (b\<lparr> columns := cols, orderByColumns := ocs, orderDirection := dir,
                      limitValue := lim, offsetValue := off \<rparr>) = count_query b
   \<and> fst (count parseCount (b\<lparr> columns := cols, orderByColumns := ocs, orderDirection := dir,
                                limitValue := lim, offsetValue := off \<rparr>))
     = fst (count parseCount b)
   \<and> execute (snd (count parseCount b)) = execute b"
proof -
  have s: "snd (count parseCount b) = b"
    by (simp add: count_def split: sum.splits list.splits)
  have q: "count_query (b\<lparr> columns := cols, orderByColumns := ocs, orderDirection := dir,
                      limitValue := lim, offsetValue := off \<rparr>) = count_query b"
    by (simp add: count_query_def where_clause_def)
  have t: "count_query b = ''SELECT COUNT(*) FROM '' @ table b
       @ (if whereConditions b = [] then [] else '' WHERE '' @ join '' AND '' (whereConditions b))"
    by (simp add: count_query_def where_clause_def)
  have f: "fst (count parseCount b)
     = (case client b (count_query b) (whereParams b) of
          Inr [] \<Rightarrow> Fulfilled \<lparr> count_value = Some 0,
                      count_error = Some (TypeError ''Cannot read properties of undefined'') \<rparr>
        | Inr (r # _) \<Rightarrow> Fulfilled \<lparr> count_value = parseCount r, count_error = None \<rparr>
        | Inl e \<Rightarrow> Fulfilled \<lparr> count_value = Some 0, count_error = Some (DriverError e) \<rparr>)"
    by (simp add: count_def split: sum.splits list.splits)
  have g: "fst (count parseCount (b\<lparr> columns := cols, orderByColumns := ocs, orderDirection := dir,
                                limitValue := lim, offsetValue := off \<rparr>))
     = fst (count parseCount b)"
    by (simp add: count_def q split: sum.splits list.splits)
  show ?thesis
    using s q t f g by simp
qed

theorem count_uses_filters_only_and_keeps_builder_witness:
  "count_query ((eq ''category_id'' 7 (from_table ((\<lambda>_ _. Inr [3]) :: (int, nat, unit) pool) ''menu_items''))
       \<lparr> columns := [''name''], orderByColumns := [''name''], orderDirection := DESC,
         limitValue := Some 5, offsetValue := None \<rparr>)
     = ''SELECT COUNT(*) FROM menu_items WHERE category_id = $1''
   \<and> snd (count (\<lambda>r. Some (int r))
            (eq ''category_id'' 7 (from_table ((\<lambda>_ _. Inr [3]) :: (int, nat, unit) pool) ''menu_items'')))
     = eq ''category_id'' 7 (from_table ((\<lambda>_ _. Inr [3]) :: (int, nat, unit) pool) ''menu_items'')"
proof -
  let ?b = "eq ''category_id'' 7 (from_table ((\<lambda>_ _. Inr [3]) :: (int, nat, unit) pool) ''menu_items'')"
  have fields: "table ?b = ''menu_items''" "whereConditions ?b = [''category_id = $1'']"
    by (simp_all add: eq_def fresh_fields decimal_small)
  have "snd (count (\<lambda>r. Some (int r)) ?b) = ?b
      \<and> count_query ?b = ''SELECT COUNT(*) FROM menu_items WHERE category_id = $1''
      \<and> count_query (?b\<lparr> columns := [''name''], orderByColumns := [''name''], orderDirection := DESC,
                          limitValue := Some 5, offsetValue := None \<rparr>) = count_query ?b"
    using count_uses_filters_only_and_keeps_builder
            [where parseCount = "\<lambda>r. Some (int r)" and b = ?b and cols = "[''name'']"
               and ocs = "[''name'']" and dir = DESC and lim = "Some 5" and off = None]
    unfolding fields by simp
  then show ?thesis by simp
qed

subsection \<open>\<open>delete\<close> and \<open>update\<close> without a filter\<close>

text \<open>
  Claim C10. On a builder with no accumulated condition, \<open>delete()\<close> calls the driver
  with \<open>DELETE FROM <table>\<close> and \<open>RETURNING *\<close>, nothing between them but the white
  space of the template, and \<open>update(record)\<close> calls it with its \<open>SET\<close> clause followed
  by \<open>RETURNING *\<close> and the values of the record as the only parameters: no \<open>WHERE\<close>
  clause restricts the rows. What each method returns is the driver's answer to exactly
  that call, set on a new builder. With at least one condition both calls carry \<open>WHERE\<close>
  and the conditions joined by \<open>AND\<close>, and \<open>update\<close> appends the stored parameters. A
  builder that started fresh has a condition exactly when a filter was called on it, and
  no parameter when none was.
\<close>

theorem delete_update_where_only_after_filter:
  "(whereConditions b = [] \<longrightarrow>
      delete_statement b
        = (nl @ ''        DELETE FROM '' @ table b @ nl @ ''      '' @ '' RETURNING *'',
           whereParams b)
    \<and> update_statement b d
        = (nl @ ''        UPDATE '' @ table b @ nl
           @ ''        SET ''
           @ join '', '' (map_index (\<lambda>col i. col @ '' = $'' @ decimal (i + 1)) (object_keys d))
           @ nl @ ''      '' @ '' RETURNING *'',
           object_values d)
    \<and> delete b
        = (case client b
                  (nl @ ''        DELETE FROM '' @ table b @ nl @ ''      '' @ '' RETURNING *'')
                  (whereParams b) of
             Inr rows \<Rightarrow> Fulfilled (setData rows (new_QueryBuilder (table b) (client b)))
           | Inl e \<Rightarrow> Fulfilled (setError (DriverError e) (new_QueryBuilder (table b) (client b))))
    \<and> update d b
        = (case client b
                  (nl @ ''        UPDATE '' @ table b @ nl
                   @ ''        SET ''
                   @ join '', '' (map_index (\<lambda>col i. col @ '' = $'' @ decimal (i + 1)) (object_keys d))
                   @ nl @ ''      '' @ '' RETURNING *'')
                  (object_values d) of
             Inr rows \<Rightarrow> Fulfilled (setData rows (new_QueryBuilder (table b) (client b)))
           | Inl e \<Rightarrow> Fulfilled (setError (DriverError e) (new_QueryBuilder (table b) (client b)))))
   \<and> (whereConditions b \<noteq> [] \<longrightarrow>
      delete_statement b
        = (nl @ ''        DELETE FROM '' @ table b @ nl @ ''      ''
           @ '' WHERE '' @ join '' AND '' (whereConditions b) @ '' RETURNING *'',
           whereParams b)
    \<and> update_statement b d
        = (nl @ ''        UPDATE '' @ table b @ nl
           @ ''        SET ''
           @ join '', '' (map_index (\<lambda>col i. col @ '' = $'' @ decimal (i + 1)) (object_keys d))
           @ nl @ ''      '' @ '' WHERE '' @ join '' AND '' (whereConditions b) @ '' RETURNING *'',
           object_values d @ whereParams b)
    \<and> delete b
        = (case client b
                  (nl @ ''        DELETE FROM '' @ table b @ nl @ ''      ''
                   @ '' WHERE '' @ join '' AND '' (whereConditions b) @ '' RETURNING *'')
                  (whereParams b) of
             Inr rows \<Rightarrow> Fulfilled (setData rows (new_QueryBuilder (table b) (client b)))
           | Inl e \<Rightarrow> Fulfilled (setError (DriverError e) (new_QueryBuilder (table b) (client b))))
    \<and> update d b
        = (case client b
                  (nl @ ''        UPDATE '' @ table b @ nl
                   @ ''        SET ''
                   @ join '', '' (map_index (\<lambda>col i. col @ '' = $'' @ decimal (i + 1)) (object_keys d))
                   @ nl @ ''      '' @ '' WHERE '' @ join '' AND '' (whereConditions b)
                   @ '' RETURNING *'')
                  (object_values d @ whereParams b) of
             Inr rows \<Rightarrow> Fulfilled (setData rows (new_QueryBuilder (table b) (client b)))
           | Inl e \<Rightarrow> Fulfilled (setError (DriverError e) (new_QueryBuilder (table b) (client b)))))
   \<and> (whereConditions (apply_filters cs (from_table p t)) = [] \<longleftrightarrow> cs = [])
   \<and> (whereParams (apply_filters [] (from_table p t)) = [])"
proof -
  have "length (whereConditions (apply_filters cs (from_table p t))) = length cs"
    by (simp add: fresh_chain_whereConditions spec_conditions_def)
  then have fresh: "whereConditions (apply_filters cs (from_table p t)) = [] \<longleftrightarrow> cs = []"
    by (metis length_0_conv)
  have stmts: "whereConditions b = [] \<longrightarrow>
      delete_statement b
        = (nl @ ''        DELETE FROM '' @ table b @ nl @ ''      '' @ '' RETURNING *'',
           whereParams b)
    \<and> update_statement b d
        = (nl @ ''        UPDATE '' @ table b @ nl
           @ ''        SET ''
           @ join '', '' (map_index (\<lambda>col i. col @ '' = $'' @ decimal (i + 1)) (object_keys d))
           @ nl @ ''      '' @ '' RETURNING *'',
           object_values d)"
    "whereConditions b \<noteq> [] \<longrightarrow>
      delete_statement b
        = (nl @ ''        DELETE FROM '' @ table b @ nl @ ''      ''
           @ '' WHERE '' @ join '' AND '' (whereConditions b) @ '' RETURNING *'',
           whereParams b)
    \<and> update_statement b d
        = (nl @ ''        UPDATE '' @ table b @ nl
           @ ''        SET ''
           @ join '', '' (map_index (\<lambda>col i. col @ '' = $'' @ decimal (i + 1)) (object_keys d))
           @ nl @ ''      '' @ '' WHERE '' @ join '' AND '' (whereConditions b) @ '' RETURNING *'',
           object_values d @ whereParams b)"
    by (simp_all add: delete_statement_def update_statement_def Let_def)
  have calls:
    "delete b
       = (case client b (fst (delete_statement b)) (snd (delete_statement b)) of
            Inr rows \<Rightarrow> Fulfilled (setData rows (new_QueryBuilder (table b) (client b)))
          | Inl e \<Rightarrow> Fulfilled (setError (DriverError e) (new_QueryBuilder (table b) (client b))))"
    "update d b
       = (case client b (fst (update_statement b d)) (snd (update_statement b d)) of
            Inr rows \<Rightarrow> Fulfilled (setData rows (new_QueryBuilder (table b) (client b)))
          | Inl e \<Rightarrow> Fulfilled (setError (DriverError e) (new_QueryBuilder (table b) (client b))))"
    by (simp_all add: delete_def update_def settle_def)
  show ?thesis
  proof (cases "whereConditions b = []")
    case True
    with stmts(1) have s: "delete_statement b
        = (nl @ ''        DELETE FROM '' @ table b @ nl @ ''      '' @ '' RETURNING *'',
           whereParams b)"
      "update_statement b d
        = (nl @ ''        UPDATE '' @ table b @ nl
           @ ''        SET ''
           @ join '', '' (map_index (\<lambda>col i. col @ '' = $'' @ decimal (i + 1)) (object_keys d))
           @ nl @ ''      '' @ '' RETURNING *'',
           object_values d)"
      by simp_all
    show ?thesis
      unfolding calls s using True fresh by (simp add: fresh_fields)
  next
    case False
    with stmts(2) have s: "delete_statement b
        = (nl @ ''        DELETE FROM '' @ table b @ nl @ ''      ''
           @ '' WHERE '' @ join '' AND '' (whereConditions b) @ '' RETURNING *'',
           whereParams b)"
      "update_statement b d
        = (nl @ ''        UPDATE '' @ table b @ nl
           @ ''        SET ''
           @ join '', '' (map_index (\<lambda>col i. col @ '' = $'' @ decimal (i + 1)) (object_keys d))
           @ nl @ ''      '' @ '' WHERE '' @ join '' AND '' (whereConditions b) @ '' RETURNING *'',
           object_values d @ whereParams b)"
      by simp_all
    show ?thesis
      unfolding calls s using False fresh by (simp add: fresh_fields)
  qed
qed

theorem delete_update_where_only_after_filter_witness:
  "(let p = (\<lambda>text params.
               if text = nl @ ''        DELETE FROM order_items'' @ nl @ ''       RETURNING *''
                  \<and> params = [] then Inr [1]
               else if text = nl @ ''        DELETE FROM order_items'' @ nl
                               @ ''       WHERE id = $1 RETURNING *''
                  \<and> params = [4] then Inr [2]
               else if text = nl @ ''        UPDATE order_items'' @ nl
                               @ ''        SET quantity = $1'' @ nl @ ''       RETURNING *''
                  \<and> params = [2] then Inr [3]
               else Inl ''unexpected statement'') :: (int, nat, string) pool
    in whereConditions (from_table p ''order_items'') = []
     \<and> delete (from_table p ''order_items'')
         = Fulfilled (setData [1] (new_QueryBuilder ''order_items'' p))
     \<and> update [(''quantity'', 2)] (from_table p ''order_items'')
         = Fulfilled (setData [3] (new_QueryBuilder ''order_items'' p))
     \<and> whereConditions (eq ''id'' 4 (from_table p ''order_items'')) \<noteq> []
     \<and> delete (eq ''id'' 4 (from_table p ''order_items''))
         = Fulfilled (setData [2] (new_QueryBuilder ''order_items'' p)))"
proof -
  let ?p = "(\<lambda>text params.
               if text = nl @ ''        DELETE FROM order_items'' @ nl @ ''       RETURNING *''
                  \<and> params = [] then Inr [1]
               else if text = nl @ ''        DELETE FROM order_items'' @ nl
                               @ ''       WHERE id = $1 RETURNING *''
                  \<and> params = [4] then Inr [2]
               else if text = nl @ ''        UPDATE order_items'' @ nl
                               @ ''        SET quantity = $1'' @ nl @ ''       RETURNING *''
                  \<and> params = [2] then Inr [3]
               else Inl ''unexpected statement'') :: (int, nat, string) pool"
  let ?b = "from_table ?p ''order_items''"
  let ?f = "eq ''id'' 4 ?b"
  have plain:
    "whereConditions ?b = []" "whereParams ?b = []" "table ?b = ''order_items''" "client ?b = ?p"
    by (simp_all add: fresh_fields)
  have filtered:
    "whereConditions ?f = [''id = $1'']" "whereParams ?f = [4]" "table ?f = ''order_items''"
    "client ?f = ?p"
    by (simp_all add: eq_def fresh_fields decimal_small)
  have set_clause:
    "join '', '' (map_index (\<lambda>col i. col @ '' = $'' @ decimal (i + 1)) (object_keys [(''quantity'', 2::int)]))
       = ''quantity = $1''"
    "object_values [(''quantity'', 2::int)] = [2]"
    by (simp_all add: object_keys_def object_values_def map_index_def decimal_small)
  have unfiltered:
    "delete ?b = Fulfilled (setData [1] (new_QueryBuilder ''order_items'' ?p))
     \<and> update [(''quantity'', 2)] ?b = Fulfilled (setData [3] (new_QueryBuilder ''order_items'' ?p))"
    using delete_update_where_only_after_filter
            [where b = ?b and d = "[(''quantity'', 2)]" and cs = "[]" and p = ?p and t = "''t''"]
    unfolding plain set_clause by (simp add: nl_def)
  have "delete ?f = Fulfilled (setData [2] (new_QueryBuilder ''order_items'' ?p))"
    using delete_update_where_only_after_filter
            [where b = ?f and d = "[(''quantity'', 2)]" and cs = "[]" and p = ?p and t = "''t''"]
    unfolding filtered set_clause by (simp add: nl_def)
  with unfiltered show ?thesis
    unfolding Let_def plain(1) filtered(1) by simp
qed

subsection \<open>\<open>update\<close> after a filter\<close>

text \<open>
  The parameter array of \<open>update\<close> is the list of the record's values followed by the
  accumulated filter values, and its text ends with the stored conditions as the filter
  methods wrote them.
\<close>

lemma update_statement_parts:
  "snd (update_statement b d)
     = object_values d @ (if whereConditions b = [] then [] else whereParams b)"
  "fst (update_statement b d)
     = nl @ ''        UPDATE '' @ table b @ nl
       @ ''        SET ''
       @ join '', '' (map_index (\<lambda>col i. col @ '' = $'' @ decimal (i + 1)) (object_keys d))
       @ nl @ ''      '' @ where_clause b @ '' RETURNING *''"
  by (simp_all add: update_statement_def where_clause_def Let_def)

text \<open>
  In general: after a non-empty chain of filters on a fresh builder, the placeholders of
  the \<open>update\<close> statement are those of the \<open>SET\<close> clause, 1 to the number of columns,
  followed by those of the conditions, which start at 1 again.
\<close>

lemma placeholders_of_set_clause:
  assumes "\<forall>col \<in> set cols. CHR ''$'' \<notin> set col" and "ends_number r"
  shows "placeholders_of
           (join '', '' (map (\<lambda>(i, col). col @ '' = $'' @ decimal (i + 1)) (enumerate n cols)) @ r)
         = [n + 1 ..< n + 1 + length cols] @ placeholders_of r"
  using assms(1)
proof (induction cols arbitrary: n)
  case Nil
  then show ?case by simp
next
  case (Cons col cols)
  let ?rest = "map (\<lambda>(i, col). col @ '' = $'' @ decimal (i + 1)) (enumerate (Suc n) cols)"
  have c: "CHR ''$'' \<notin> set (col @ '' = '')"
    and cs: "\<forall>col \<in> set cols. CHR ''$'' \<notin> set col"
    using Cons.prems by simp_all
  have IH: "placeholders_of (join '', '' ?rest @ r)
          = [Suc n + 1 ..< Suc n + 1 + length cols] @ placeholders_of r"
    by (rule Cons.IH [OF cs])
  have first: "placeholders_of ((col @ '' = '') @ placeholder (n + 1) @ r') = (n + 1) # placeholders_of r'"
    if "ends_number r'" for r'
    using placeholders_of_skip [OF c] placeholders_of_placeholder [OF that] by simp
  have upt: "[n + 1 ..< n + 1 + length (col # cols)] = (n + 1) # [Suc n + 1 ..< Suc n + 1 + length cols]"
  proof -
    have "[n + 1 ..< n + 1 + length (col # cols)]
        = (n + 1) # [Suc (n + 1) ..< n + 1 + length (col # cols)]"
      by (rule upt_conv_Cons) simp
    then show ?thesis by simp
  qed
  show ?case
  proof (cases "cols = []")
    case True
    then show ?thesis
      using first [OF assms(2)] by (simp add: placeholder_def)
  next
    case False
    then have ne: "?rest \<noteq> []" by (cases cols) simp_all
    have e: "ends_number ('', '' @ join '', '' ?rest @ r)"
      by (simp add: ends_number_def is_digit_def)
    have j: "join '', '' (map (\<lambda>(i, col). col @ '' = $'' @ decimal (i + 1)) (enumerate n (col # cols)))
           = (col @ '' = $'' @ decimal (n + 1)) @ '', '' @ join '', '' ?rest"
      unfolding enumerate_simps list.map prod.case by (rule join_Cons_nonempty [OF ne])
    have "placeholders_of
            (join '', '' (map (\<lambda>(i, col). col @ '' = $'' @ decimal (i + 1)) (enumerate n (col # cols))) @ r)
        = placeholders_of ((col @ '' = '') @ placeholder (n + 1) @ ('', '' @ join '', '' ?rest @ r))"
      unfolding j by (simp add: placeholder_def)
    also have "\<dots> = (n + 1) # placeholders_of ('', '' @ join '', '' ?rest @ r)"
      by (rule first [OF e])
    also have "placeholders_of ('', '' @ join '', '' ?rest @ r) = placeholders_of (join '', '' ?rest @ r)"
      by (rule placeholders_of_skip) simp
    finally have F: "placeholders_of
            (join '', '' (map (\<lambda>(i, col). col @ '' = $'' @ decimal (i + 1)) (enumerate n (col # cols))) @ r)
        = (n + 1) # placeholders_of (join '', '' ?rest @ r)" .
    show ?thesis
      unfolding F IH upt by (rule append_Cons [symmetric])
  qed
qed

lemma placeholders_of_update_statement:
  assumes "CHR ''$'' \<notin> set t"
    and "\<forall>col \<in> set (object_keys d). CHR ''$'' \<notin> set col"
    and "\<forall>c \<in> set cs. CHR ''$'' \<notin> set (call_column c)"
    and "cs \<noteq> []"
  shows "placeholders_of (fst (update_statement (apply_filters cs (from_table p t)) d))
       = [1 ..< Suc (length d)] @ [1 ..< Suc (length (accumulated_values cs))]"
proof -
  let ?b = "apply_filters cs (from_table p t)"
  let ?set = "join '', '' (map (\<lambda>(i, col). col @ '' = $'' @ decimal (i + 1)) (enumerate 0 (object_keys d)))"
  let ?tail = "nl @ ''      '' @ '' WHERE '' @ (join '' AND '' (spec_conditions cs) @ '' RETURNING *'')"
  have ne: "whereConditions ?b \<noteq> []"
    using assms(4) by (simp add: fresh_chain_whereConditions spec_conditions_def)
  have st: "fst (update_statement ?b d) = (nl @ ''        UPDATE '' @ t @ nl @ ''        SET '') @ ?set @ ?tail"
    using ne
    by (simp add: update_statement_def Let_def map_index_def apply_filters_frame fresh_fields
        fresh_chain_whereConditions)
  have head: "CHR ''$'' \<notin> set (nl @ ''        UPDATE '' @ t @ nl @ ''        SET '')"
    using assms(1) by (simp add: nl_def)
  have e: "ends_number ?tail"
    by (simp add: ends_number_def is_digit_def nl_def)
  have e': "ends_number '' RETURNING *''"
    by (simp add: ends_number_def is_digit_def)
  have "placeholders_of ?tail = placeholders_of (join '' AND '' (spec_conditions cs) @ '' RETURNING *'')"
  proof -
    have "CHR ''$'' \<notin> set (nl @ ''      '' @ '' WHERE '')" by (simp add: nl_def)
    from placeholders_of_skip [OF this] show ?thesis by simp
  qed
  also have "\<dots> = [1 ..< 1 + length (accumulated_values cs)] @ placeholders_of '' RETURNING *''"
    unfolding spec_conditions_def first_position_def
    by (rule placeholders_of_conditions [OF assms(3) e'])
  also have "placeholders_of '' RETURNING *'' = []"
    using placeholders_of_skip [of "'' RETURNING *''" "[]"] by simp
  finally have tail: "placeholders_of ?tail = [1 ..< Suc (length (accumulated_values cs))]"
    by simp
  have "placeholders_of (fst (update_statement ?b d)) = placeholders_of (?set @ ?tail)"
    unfolding st by (rule placeholders_of_skip [OF head])
  also have "\<dots> = [0 + 1 ..< 0 + 1 + length (object_keys d)] @ placeholders_of ?tail"
    by (rule placeholders_of_set_clause [OF assms(2) e])
  finally have "placeholders_of (fst (update_statement ?b d))
      = [0 + 1 ..< 0 + 1 + length (object_keys d)] @ [1 ..< Suc (length (accumulated_values cs))]"
    unfolding tail .
  moreover have "[0 + 1 ..< 0 + 1 + length (object_keys d)] = [1 ..< Suc (length d)]"
    by (simp add: object_keys_def)
  ultimately show ?thesis
    by (simp only:)
qed

text \<open>
  Claim C1, evaluated on its own example: \<open>from(t).eq('id', x).update({a: v1, b: v2})\<close>.
  The parameter array is \<open>[v1, v2, x]\<close>, as the claim says. The condition was written by
  \<open>eq\<close> when the counter stood at 1, and \<open>update\<close> copies it unchanged: the \<open>WHERE\<close>
  clause reads \<open>id = $1\<close>, not \<open>id = $3\<close>, so the database compares \<open>id\<close> with \<open>v1\<close>:
  the placeholders of the statement are 1, 2, 1 and the third parameter is never named.
\<close>

theorem update_where_placeholder_restarts_at_one:
  "whereConditions (eq ''id'' x (from_table p ''t'')) = [''id = $1'']
   \<and> update_statement (eq ''id'' x (from_table p ''t'')) [(''a'', v1), (''b'', v2)]
       = (nl @ ''        UPDATE t'' @ nl
          @ ''        SET a = $1, b = $2'' @ nl
          @ ''       WHERE id = $1 RETURNING *'',
          [v1, v2, x])
   \<and> placeholders_of
         (fst (update_statement (eq ''id'' x (from_table p ''t'')) [(''a'', v1), (''b'', v2)]))
       = [1, 2, 1]"
proof -
  have fields:
    "whereConditions (eq ''id'' x (from_table p ''t'')) = [''id = $1'']"
    "whereParams (eq ''id'' x (from_table p ''t'')) = [x]"
    "table (eq ''id'' x (from_table p ''t'')) = ''t''"
    by (simp_all add: eq_def fresh_fields decimal_small)
  have st: "update_statement (eq ''id'' x (from_table p ''t'')) [(''a'', v1), (''b'', v2)]
       = (nl @ ''        UPDATE t'' @ nl
          @ ''        SET a = $1, b = $2'' @ nl
          @ ''       WHERE id = $1 RETURNING *'',
          [v1, v2, x])"
    unfolding update_statement_def fields
    by (simp add: object_keys_def object_values_def map_index_def decimal_small)
  have "placeholders_of (nl @ ''        UPDATE t'' @ nl
          @ ''        SET a = $1, b = $2'' @ nl
          @ ''       WHERE id = $1 RETURNING *'') = [1, 2, 1]"
    by (simp add: nl_def placeholders_of.simps(2) is_digit_def number_of_def digit_value_def)
  then show ?thesis
    using fields(1) st by simp
qed

subsection \<open>\<open>in\<close> with no value\<close>

lemma in_filter_empty:
  "whereConditions (in_filter column [] b) = whereConditions b @ [column @ '' IN ()'']"
  "whereParams (in_filter column [] b) = whereParams b"
  "paramCount (in_filter column [] b) = paramCount b"
  by (simp_all add: in_filter_def)

text \<open>
  Claim C4, evaluated at \<open>from('order_items').select().in('order_id', []).execute()\<close>.
  The builder has no branch for the empty array: the placeholder list is the empty
  string, the statement ends in \<open>IN ()\<close>, and \<open>execute\<close> hands it to the driver with
  no parameter. What comes back is the driver's answer to that text.
\<close>

theorem empty_in_composes_empty_parentheses:
  "execute_query (in_filter ''order_id'' [] (select_default (from_table p ''order_items'')))
     = ''SELECT * FROM order_items WHERE order_id IN ()''
   \<and> whereParams (in_filter ''order_id'' [] (select_default (from_table p ''order_items''))) = []
   \<and> execute (in_filter ''order_id'' [] (select_default (from_table p ''order_items'')))
     = (case p ''SELECT * FROM order_items WHERE order_id IN ()'' [] of
          Inr rows \<Rightarrow> Fulfilled \<lparr> data = Some rows, error = None \<rparr>
        | Inl e \<Rightarrow> Fulfilled \<lparr> data = None, error = Some (DriverError e) \<rparr>)"
  by (simp add: execute_def execute_query_def where_clause_def in_filter_def select_default_def
      from_table_def new_QueryBuilder_def)

subsection \<open>Result envelopes of the builder\<close>

text \<open>
  What the terminal methods do return: a fulfilled promise in every case, carrying
  either the rows or the error, never both and never neither. For the three writing
  methods the two properties sit on a new builder.
\<close>

lemma execute_envelope:
  "\<exists>env. execute b = Fulfilled env \<and> (data env = None) \<noteq> (error env = None)"
  by (simp add: execute_def split: sum.splits)

lemma count_envelope:
  "\<exists>env. fst (count parseCount b) = Fulfilled env"
  by (simp add: count_def split: sum.splits list.splits)

lemma settle_envelope:
  "\<exists>b' env. settle b st = Fulfilled b' \<and> result b' = Some env
      \<and> (data env = None) \<noteq> (error env = None)"
  by (simp add: settle_def setData_def setError_def split: sum.splits)

lemma writing_methods_envelope:
  "\<exists>b' env. insert_record d b = Fulfilled b' \<and> result b' = Some env
      \<and> (data env = None) \<noteq> (error env = None)"
  "\<exists>b' env. update d b = Fulfilled b' \<and> result b' = Some env
      \<and> (data env = None) \<noteq> (error env = None)"
  "\<exists>b' env. delete b = Fulfilled b' \<and> result b' = Some env
      \<and> (data env = None) \<noteq> (error env = None)"
  unfolding insert_record_def update_def delete_def by (rule settle_envelope)+

text \<open>
  Claim C2, evaluated on the chain of the services,
  \<open>postgres.from(t).insert(d).execute()\<close>, for every pool, table and record. \<open>insert\<close>
  is \<open>async\<close>: the receiver of \<open>.execute()\<close> is the promise, which has no such method,
  so the call throws a \<open>TypeError\<close> and no envelope is returned. The second part is the
  coordinator: when \<open>pool.connect()\<close> is rejected the error leaves \<open>transaction\<close> as a
  rejection, not inside an envelope. (A rejected \<open>ROLLBACK\<close> does the same, see C3.)
\<close>

theorem insert_execute_chain_throws:
  "insert_execute_chain p t d = Inl (TypeError ''execute is not a function'')
   \<and> fst (transaction (Some e) drv callback \<lparr> available = 1, trace = [] \<rparr>) = Rejected e"
  by (simp add: insert_execute_chain_def call_execute_def transaction_def pool_connect_def)

section \<open>Properties of the transaction coordinator\<close>

lemmas transaction_defs =
  transaction_def transaction_try_def transaction_catch_def pool_connect_def
  client_query_def client_release_def console_error_def

subsection \<open>Commit and rollback\<close>

text \<open>
  Claim C6 as stated fails when \<open>COMMIT\<close> is rejected: the callback below completes
  normally with the value 7, and the call returns \<open>{data: null, error: E}\<close>, not
  \<open>{data: 7, error: null}\<close>. (\<open>COMMIT\<close> stands inside the \<open>try\<close> block, so its failure
  is handled like one of the callback.)
\<close>

theorem commit_rejected_returns_error_envelope:
  "fst (transaction None (\<lambda>tr text. if text = ''COMMIT'' then Some ''E'' else None)
          (\<lambda>w. (Inr (7::nat), w)) (\<lparr> available = 1, trace = [] \<rparr> :: string world))
     = Fulfilled \<lparr> data = None, error = Some ''E'' \<rparr>
   \<and> fst (transaction None (\<lambda>tr text. if text = ''COMMIT'' then Some ''E'' else None)
          (\<lambda>w. (Inr (7::nat), w)) (\<lparr> available = 1, trace = [] \<rparr> :: string world))
     \<noteq> Fulfilled \<lparr> data = Some 7, error = None \<rparr>
   \<and> trace (snd (transaction None (\<lambda>tr text. if text = ''COMMIT'' then Some ''E'' else None)
          (\<lambda>w. (Inr (7::nat), w)) (\<lparr> available = 1, trace = [] \<rparr> :: string world)))
     = [Checkout, Statement ''BEGIN'', Invoke, Statement ''COMMIT'', Statement ''ROLLBACK'',
        ConsoleError ''E'', Release]"
  by (simp add: transaction_defs)

text \<open>
  Claim C6, amended. A \<open>transaction(callback)\<close> invocation that obtains a connection
  issues \<open>BEGIN\<close> on it first and runs the callback only after \<open>BEGIN\<close> was accepted
  (the callback starts in the world whose trace ends with the checkout, \<open>BEGIN\<close> and
  its own invocation). If the callback completes normally, \<open>COMMIT\<close> is issued, and
  when \<open>COMMIT\<close> is accepted the call returns \<open>{data: result, error: null}\<close>. If the
  callback raises a failure, \<open>ROLLBACK\<close> is issued, and when \<open>ROLLBACK\<close> is accepted
  the call returns \<open>{data: null, error}\<close> with that failure. A rejected \<open>BEGIN\<close> or
  \<open>COMMIT\<close> is handled like a failure of the callback, with the statement's error in
  the envelope. In each of these cases the connection is released last.
\<close>

theorem transaction_commits_or_rolls_back:
  assumes "0 < available w"
  shows
    "let w_begin = w\<lparr> available := available w - 1,
                      trace := trace w @ [Checkout, Statement ''BEGIN''] \<rparr>;
         w_cb = w\<lparr> available := available w - 1,
                   trace := trace w @ [Checkout, Statement ''BEGIN'', Invoke] \<rparr>
     in (\<forall>res w2.
           drv (trace w @ [Checkout]) ''BEGIN'' = None \<and> callback w_cb = (Inr res, w2)
           \<and> drv (trace w2) ''COMMIT'' = None
           \<longrightarrow> transaction None drv callback w
               = (Fulfilled \<lparr> data = Some res, error = None \<rparr>,
                  w2\<lparr> available := available w2 + 1,
                      trace := trace w2 @ [Statement ''COMMIT'', Release] \<rparr>))
      \<and> (\<forall>e w2.
           drv (trace w @ [Checkout]) ''BEGIN'' = None \<and> callback w_cb = (Inl e, w2)
           \<and> drv (trace w2) ''ROLLBACK'' = None
           \<longrightarrow> transaction None drv callback w
               = (Fulfilled \<lparr> data = None, error = Some e \<rparr>,
                  w2\<lparr> available := available w2 + 1,
                      trace := trace w2 @ [Statement ''ROLLBACK'', ConsoleError e, Release] \<rparr>))
      \<and> (\<forall>res e w2.
           drv (trace w @ [Checkout]) ''BEGIN'' = None \<and> callback w_cb = (Inr res, w2)
           \<and> drv (trace w2) ''COMMIT'' = Some e
           \<and> drv (trace w2 @ [Statement ''COMMIT'']) ''ROLLBACK'' = None
           \<longrightarrow> transaction None drv callback w
               = (Fulfilled \<lparr> data = None, error = Some e \<rparr>,
                  w2\<lparr> available := available w2 + 1,
                      trace := trace w2 @ [Statement ''COMMIT'', Statement ''ROLLBACK'',
                                           ConsoleError e, Release] \<rparr>))
      \<and> (\<forall>e.
           drv (trace w @ [Checkout]) ''BEGIN'' = Some e
           \<and> drv (trace w_begin) ''ROLLBACK'' = None
           \<longrightarrow> transaction None drv callback w
               = (Fulfilled \<lparr> data = None, error = Some e \<rparr>,
                  w\<lparr> trace := trace w @ [Checkout, Statement ''BEGIN'', Statement ''ROLLBACK'',
                                         ConsoleError e, Release] \<rparr>))"
  using assms by (simp add: transaction_defs Let_def)

theorem transaction_commits_or_rolls_back_witness:
  "0 < available (\<lparr> available = 2, trace = [] \<rparr> :: string world)
   \<and> transaction None (\<lambda>tr text. None)
        (\<lambda>w. (Inr (7::nat), w\<lparr> trace := trace w @ [Statement ''INSERT INTO orders''] \<rparr>))
        (\<lparr> available = 2, trace = [] \<rparr> :: string world)
     = (Fulfilled \<lparr> data = Some 7, error = None \<rparr>,
        \<lparr> available = 2,
          trace = [Checkout, Statement ''BEGIN'', Invoke, Statement ''INSERT INTO orders'',
                   Statement ''COMMIT'', Release] \<rparr>)
   \<and> transaction None (\<lambda>tr text. None)
        (\<lambda>w. (Inl ''E1'' :: string + nat, w\<lparr> trace := trace w @ [Statement ''INSERT INTO orders''] \<rparr>))
        (\<lparr> available = 2, trace = [] \<rparr> :: string world)
     = (Fulfilled \<lparr> data = None, error = Some ''E1'' \<rparr>,
        \<lparr> available = 2,
          trace = [Checkout, Statement ''BEGIN'', Invoke, Statement ''INSERT INTO orders'',
                   Statement ''ROLLBACK'', ConsoleError ''E1'', Release] \<rparr>)"
proof -
  let ?w = "\<lparr> available = 2, trace = [] \<rparr> :: string world"
  let ?drv = "(\<lambda>tr text. None) :: string driver"
  let ?ok = "(\<lambda>w. (Inr (7::nat), w\<lparr> trace := trace w @ [Statement ''INSERT INTO orders''] \<rparr>))
               :: (string, nat) callback"
  let ?bad = "(\<lambda>w. (Inl ''E1'', w\<lparr> trace := trace w @ [Statement ''INSERT INTO orders''] \<rparr>))
               :: (string, nat) callback"
  have pos: "0 < available ?w" by simp
  have "transaction None ?drv ?ok ?w
     = (Fulfilled \<lparr> data = Some 7, error = None \<rparr>,
        \<lparr> available = 2,
          trace = [Checkout, Statement ''BEGIN'', Invoke, Statement ''INSERT INTO orders'',
                   Statement ''COMMIT'', Release] \<rparr>)"
    using transaction_commits_or_rolls_back
            [OF pos, where drv = ?drv and callback = ?ok]
    by (simp add: Let_def)
  moreover have "transaction None ?drv ?bad ?w
     = (Fulfilled \<lparr> data = None, error = Some ''E1'' \<rparr>,
        \<lparr> available = 2,
          trace = [Checkout, Statement ''BEGIN'', Invoke, Statement ''INSERT INTO orders'',
                   Statement ''ROLLBACK'', ConsoleError ''E1'', Release] \<rparr>)"
    using transaction_commits_or_rolls_back
            [OF pos, where drv = ?drv and callback = ?bad]
    by (simp add: Let_def)
  ultimately show ?thesis using pos by simp
qed

subsection \<open>A rejected \<open>ROLLBACK\<close>\<close>

text \<open>
  Claim C3, evaluated: the callback throws \<open>e1\<close> and the driver rejects \<open>ROLLBACK\<close>
  with \<open>e2\<close>, in any world with an available connection. The \<open>await\<close> of \<open>ROLLBACK\<close>
  stands unguarded in the \<open>catch\<close> block, so \<open>e2\<close> leaves it: the promise of
  \<open>transaction\<close> is rejected with \<open>e2\<close>, no envelope is returned, \<open>e1\<close> is lost, and the
  trace holds no \<open>console.error\<close>. Only the release of the \<open>finally\<close> block still runs.
\<close>

theorem rollback_rejected_escapes_unlogged:
  "transaction None (\<lambda>tr text. if text = ''ROLLBACK'' then Some e2 else None)
      (\<lambda>w. (Inl e1, w)) \<lparr> available = Suc n, trace = tr0 \<rparr>
   = (Rejected e2,
      \<lparr> available = Suc n,
        trace = tr0 @ [Checkout, Statement ''BEGIN'', Invoke, Statement ''ROLLBACK'', Release] \<rparr>)"
  by (simp add: transaction_defs)

subsection \<open>Release of the connection\<close>

lemma transaction_try_keeps_pool:
  assumes "callback_keeps_pool callback"
  shows "available (snd (transaction_try drv callback w)) = available w"
    and "count_list (trace (snd (transaction_try drv callback w))) Release
         = count_list (trace w) Release"
proof -
  let ?w1 = "w\<lparr> trace := trace w @ [Statement ''BEGIN'', Invoke] \<rparr>"
  have a: "available (snd (callback ?w1)) = available w"
    and r: "count_list (trace (snd (callback ?w1))) Release = count_list (trace w) Release"
    using assms by (simp_all add: callback_keeps_pool_def)
  show "available (snd (transaction_try drv callback w)) = available w"
    using a
    by (auto simp: transaction_try_def client_query_def
        split: option.splits prod.splits sum.splits)
  show "count_list (trace (snd (transaction_try drv callback w))) Release
        = count_list (trace w) Release"
    using r
    by (auto simp: transaction_try_def client_query_def
        split: option.splits prod.splits sum.splits)
qed

lemma transaction_catch_keeps_pool:
  "available (snd (transaction_catch drv e w)) = available w"
  "count_list (trace (snd (transaction_catch drv e w))) Release = count_list (trace w) Release"
  by (simp_all add: transaction_catch_def client_query_def console_error_def
      split: option.splits)

lemma transaction_blocks_keep_pool:
  assumes "callback_keeps_pool callback"
  shows "available (snd (case transaction_try drv callback w of
                           (Inr env, w') \<Rightarrow> (Fulfilled env, w')
                         | (Inl e, w') \<Rightarrow> transaction_catch drv e w')) = available w"
    and "count_list (trace (snd (case transaction_try drv callback w of
                           (Inr env, w') \<Rightarrow> (Fulfilled env, w')
                         | (Inl e, w') \<Rightarrow> transaction_catch drv e w'))) Release
         = count_list (trace w) Release"
  using transaction_try_keeps_pool [OF assms, of drv w]
  by (auto split: prod.splits sum.splits simp: transaction_catch_keeps_pool)

text \<open>
  Claim C7. For a callback that leaves the pool alone, every \<open>transaction\<close> invocation
  ends with the pool's count of available connections at its value before the call:
  on the success path, when the callback throws, and when \<open>BEGIN\<close>, \<open>COMMIT\<close> or
  \<open>ROLLBACK\<close> is rejected, whatever the driver answers. The trace gains exactly one
  release when a connection was checked out, and none when \<open>pool.connect()\<close> did not
  hand one out.
\<close>

theorem transaction_releases_connection_once:
  assumes "callback_keeps_pool callback"
  shows "available (snd (transaction connect_error drv callback w)) = available w
       \<and> count_list (trace (snd (transaction connect_error drv callback w))) Release
         = count_list (trace w) Release
           + (case fst (pool_connect connect_error w) of Fulfilled _ \<Rightarrow> 1 | _ \<Rightarrow> 0)"
proof (cases "available w = 0 \<or> connect_error \<noteq> None")
  case True
  then show ?thesis
    by (auto simp: transaction_def pool_connect_def)
next
  case False
  let ?w0 = "w\<lparr> available := available w - 1, trace := trace w @ [Checkout] \<rparr>"
  have c: "pool_connect connect_error w = (Fulfilled (), ?w0)"
    using False by (simp add: pool_connect_def)
  have "available ?w0 + 1 = available w"
    and "count_list (trace ?w0) Release = count_list (trace w) Release"
    using False by simp_all
  then show ?thesis
    using transaction_blocks_keep_pool [OF assms, of drv ?w0]
    by (simp add: transaction_def c client_release_def case_prod_beta Let_def)
qed

theorem transaction_releases_connection_once_witness:
  "callback_keeps_pool
     ((\<lambda>w. (Inl ''E1'', w\<lparr> trace := trace w @ [Statement ''INSERT INTO orders''] \<rparr>))
        :: (string, nat) callback)
   \<and> available (snd (transaction None (\<lambda>tr text. if text = ''ROLLBACK'' then Some ''E2'' else None)
        ((\<lambda>w. (Inl ''E1'', w\<lparr> trace := trace w @ [Statement ''INSERT INTO orders''] \<rparr>))
           :: (string, nat) callback)
        (\<lparr> available = 3, trace = [] \<rparr> :: string world))) = 3
   \<and> count_list (trace (snd (transaction None
        (\<lambda>tr text. if text = ''ROLLBACK'' then Some ''E2'' else None)
        ((\<lambda>w. (Inl ''E1'', w\<lparr> trace := trace w @ [Statement ''INSERT INTO orders''] \<rparr>))
           :: (string, nat) callback)
        (\<lparr> available = 3, trace = [] \<rparr> :: string world)))) Release = 1"
proof -
  let ?cb = "(\<lambda>w. (Inl ''E1'', w\<lparr> trace := trace w @ [Statement ''INSERT INTO orders''] \<rparr>))
               :: (string, nat) callback"
  let ?drv = "(\<lambda>tr text. if text = ''ROLLBACK'' then Some ''E2'' else None) :: string driver"
  let ?w = "\<lparr> available = 3, trace = [] \<rparr> :: string world"
  have keeps: "callback_keeps_pool ?cb"
    by (simp add: callback_keeps_pool_def)
  have "available (snd (transaction None ?drv ?cb ?w)) = available ?w
      \<and> count_list (trace (snd (transaction None ?drv ?cb ?w))) Release
        = count_list (trace ?w) Release
          + (case fst (pool_connect None ?w) of Fulfilled _ \<Rightarrow> 1 | _ \<Rightarrow> 0)"
    by (rule transaction_releases_connection_once [OF keeps])
  then show ?thesis
    using keeps by (simp add: pool_connect_def)
qed

end
